theory Spec2Isabelle
  imports Complex_Main "HOL-Library.Sublist" "HOL-Library.Multiset" "HOL-Library.AList"
begin

section \<open>Data model of the HTTP transport (src/src/http-server.ts)\<close>

text \<open>
  A decoded JSON value, as \<open>express.json()\<close> or \<open>JSON.parse\<close> hands it to the
  server. An object is its list of members; a decoded object has no duplicate keys,
  and a member is looked up with \<open>map_of\<close>. A number is a double: \<open>JNum\<close> holds a
  finite one as the rational it denotes (the server never computes with it, and \<open>-0\<close>
  is written back as \<open>0\<close>), and \<open>JInfinity\<close> and \<open>JNegInfinity\<close> are what \<open>JSON.parse\<close>
  yields for a literal beyond the range of the doubles, such as \<open>1e400\<close>. \<open>NaN\<close> is
  no result of \<open>JSON.parse\<close>.
\<close>

datatype json =
    JNull
  | JBool bool
  | JNum rat
  | JInfinity
  | JNegInfinity
  | JStr string
  | JArr "json list"
  | JObj "(string \<times> json) list"

text \<open>
  What the handlers can throw: the two classes of the file, \<open>HttpError(status, message)\<close>
  and \<open>RpcError(code, message)\<close>, and any other JavaScript exception (a \<open>TypeError\<close>
  of the runtime, a \<open>SyntaxError\<close> of \<open>JSON.parse\<close>, an \<open>Error\<close> of a tool).
\<close>

datatype js_error =
    HttpError nat string
  | RpcError int string
  | TypeError string
  | SyntaxError string
  | Error string

text \<open>The \<open>Session\<close> interface. The field \<open>id\<close> is named \<open>id_field\<close> here.\<close>

record session =
  id_field :: string
  createdAt :: int
  lastActivity :: int
  initialized :: bool

text \<open>
  The mutable state of the process. \<open>sessions\<close> is the global \<open>Map<string, Session>\<close>
  in insertion order. The three counters say how many times the process has read
  \<open>Date.now()\<close>, called \<open>uuidv4()\<close> and called \<open>legalTools.callTool\<close>; the values these
  calls return come from the environment below.
\<close>

record server =
  sessions :: "(string \<times> session) list"
  clock_reads :: nat
  uuids_made :: nat
  tool_calls :: nat

text \<open>
  What the file imports and does not define: the clock, the identifier generator, the
  tool registry (a call resolves with \<open>Inr\<close> or rejects with \<open>Inl\<close>; \<open>None\<close> as
  argument is \<open>undefined\<close>), \<open>JSON.parse\<close> (\<open>None\<close> when it throws), and the
  constants of the protocol SDK. The \<open>n\<close>-th reading of the clock is \<open>now_at env n\<close>, the
  \<open>n\<close>-th identifier \<open>uuid_at env n\<close>, the outcome of the \<open>n\<close>-th tool call \<open>tool_at env n\<close>.
\<close>

record env =
  now_at :: "nat \<Rightarrow> int"
  uuid_at :: "nat \<Rightarrow> string"
  tool_at :: "nat \<Rightarrow> string \<Rightarrow> json option \<Rightarrow> js_error + json"
  listTools :: json
  JSON_parse :: "string \<Rightarrow> json option"
  LATEST_PROTOCOL_VERSION :: string
  SUPPORTED_PROTOCOL_VERSIONS :: "string list"
  InvalidRequest :: int
  MethodNotFound :: int
  InvalidParams :: int
  InternalError :: int

definition SESSION_TIMEOUT_MS :: int where
  "SESSION_TIMEOUT_MS = 30 * 60 * 1000"

text \<open>
  An incoming POST: the three headers the handler reads (\<open>None\<close> when the header is
  absent) and \<open>req.body\<close>.
\<close>

record request =
  accept :: "string option"
  content_type :: "string option"
  mcp_session_id :: "string option"
  body :: json

text \<open>
  A JSON-RPC frame, as a task builds it and as the client reads it from the stream:
  its \<open>id\<close> member (\<open>None\<close> when the member is absent) and either the result or the
  code and message of the error.
\<close>

datatype frame =
    ResultFrame "json option" json
  | ErrorFrame "json option" int string

fun frame_id :: "frame \<Rightarrow> json option" where
  "frame_id (ResultFrame i r) = i"
| "frame_id (ErrorFrame i c m) = i"

text \<open>
  What the client receives: a plain response with a status and, unless the body is
  empty, the text of its \<open>error\<close> member; or an event stream with the
  \<open>Mcp-Session-Id\<close> response header (if set) and the frames in the order written.
\<close>

datatype response =
    Plain nat "string option"
  | Stream "string option" "frame list"

section \<open>JavaScript property access\<close>

text \<open>
  \<open>v.key\<close> for a value that is not \<open>null\<close>; \<open>None\<close> is \<open>undefined\<close>. Exact for the keys
  the server reads (\<open>method\<close>, \<open>id\<close>, \<open>params\<close>, \<open>protocolVersion\<close>, \<open>name\<close>, \<open>arguments\<close>):
  no primitive and no array has a property of these names. On \<open>null\<close> the read throws;
  the callers below that can meet \<open>null\<close> test for it first.
\<close>

fun get :: "json \<Rightarrow> string \<Rightarrow> json option" where
  "get (JObj kvs) k = map_of kvs k"
| "get v k = None"

text \<open>\<open>v?.key\<close>: \<open>undefined\<close> when \<open>v\<close> is \<open>undefined\<close> or \<open>null\<close>.\<close>

fun optional_get :: "json option \<Rightarrow> string \<Rightarrow> json option" where
  "optional_get None k = None"
| "optional_get (Some JNull) k = None"
| "optional_get (Some v) k = get v k"

text \<open>\<open>typeof v === 'string'\<close>.\<close>

fun is_string :: "json option \<Rightarrow> bool" where
  "is_string (Some (JStr s)) = True"
| "is_string v = False"

text \<open>
  \<open>'id' in v\<close>: a \<open>TypeError\<close> when \<open>v\<close> is not an object; an array is an object
  without such a property.
\<close>

fun id_in :: "json \<Rightarrow> js_error + bool" where
  "id_in (JObj kvs) = Inr (map_of kvs ''id'' \<noteq> None)"
| "id_in (JArr xs) = Inr False"
| "id_in v = Inl (TypeError ''Cannot use in operator to search for id'')"

section \<open>Message classifier and partitioner\<close>

text \<open>
  \<open>isRequest\<close>: \<open>typeof message.method === 'string' && 'id' in message\<close>. Reading
  \<open>message.method\<close> throws on \<open>null\<close>; \<open>&&\<close> evaluates its right side only when the
  left side is true.
\<close>

fun isRequest :: "json \<Rightarrow> js_error + bool" where
  "isRequest JNull = Inl (TypeError ''Cannot read properties of null (reading method)'')"
| "isRequest message =
     (if is_string (get message ''method'') then id_in message else Inr False)"

fun isNotification :: "json \<Rightarrow> js_error + bool" where
  "isNotification JNull = Inl (TypeError ''Cannot read properties of null (reading method)'')"
| "isNotification message =
     (if is_string (get message ''method'')
      then (case id_in message of Inl e \<Rightarrow> Inl e | Inr b \<Rightarrow> Inr (\<not> b))
      else Inr False)"

text \<open>
  \<open>partitionMessages\<close>: the loop pushes each message onto one of three arrays; an
  exception of a test leaves the loop.
\<close>

fun partition_loop ::
  "json list \<Rightarrow> json list \<times> json list \<times> json list
     \<Rightarrow> js_error + (json list \<times> json list \<times> json list)" where
  "partition_loop [] acc = Inr acc"
| "partition_loop (message # rest) (requests, notifications, responses) =
     (case isRequest message of
        Inl e \<Rightarrow> Inl e
      | Inr True \<Rightarrow> partition_loop rest (requests @ [message], notifications, responses)
      | Inr False \<Rightarrow>
          (case isNotification message of
             Inl e \<Rightarrow> Inl e
           | Inr True \<Rightarrow> partition_loop rest (requests, notifications @ [message], responses)
           | Inr False \<Rightarrow> partition_loop rest (requests, notifications, responses @ [message])))"

definition partitionMessages ::
  "json list \<Rightarrow> js_error + (json list \<times> json list \<times> json list)" where
  "partitionMessages messages = partition_loop messages ([], [], [])"

text \<open>
  The structural rule in the words of the specification: a message has a string
  \<open>method\<close> field, and it has an identifier field.
\<close>

fun has_string_method :: "json \<Rightarrow> bool" where
  "has_string_method (JObj kvs) = (case map_of kvs ''method'' of Some (JStr m) \<Rightarrow> True | _ \<Rightarrow> False)"
| "has_string_method v = False"

fun has_identifier :: "json \<Rightarrow> bool" where
  "has_identifier (JObj kvs) = (''id'' \<in> fst ` set kvs)"
| "has_identifier v = False"

definition is_Request :: "json \<Rightarrow> bool" where
  "is_Request m = (has_string_method m \<and> has_identifier m)"

definition is_Notification :: "json \<Rightarrow> bool" where
  "is_Notification m = (has_string_method m \<and> \<not> has_identifier m)"

definition is_Response :: "json \<Rightarrow> bool" where
  "is_Response m = (\<not> has_string_method m)"

section \<open>Header checks and decoding of the body\<close>

definition toLowerCase :: "string \<Rightarrow> string" where
  "toLowerCase s =
     map (\<lambda>c. let n = (of_char c :: nat) in if 65 \<le> n \<and> n \<le> 90 then char_of (n + 32) else c) s"

text \<open>\<open>s.includes(p)\<close>: \<open>p\<close> occurs in \<open>s\<close>.\<close>

fun includes_str :: "string \<Rightarrow> string \<Rightarrow> bool" where
  "includes_str [] p = (p = [])"
| "includes_str (c # cs) p = (prefix p (c # cs) \<or> includes_str cs p)"

definition enforceAcceptHeader :: "request \<Rightarrow> js_error + unit" where
  "enforceAcceptHeader req =
     (let a = toLowerCase (case accept req of Some h \<Rightarrow> h | None \<Rightarrow> [])
      in if \<not> includes_str a ''application/json'' \<and> \<not> includes_str a ''text/event-stream''
         then Inl (HttpError 406
           ''Clients must include application/json or text/event-stream in the Accept header.'')
         else Inr ())"

definition enforceJsonContent :: "request \<Rightarrow> js_error + unit" where
  "enforceJsonContent req =
     (let contentType = (case content_type req of Some h \<Rightarrow> h | None \<Rightarrow> [])
      in if \<not> includes_str contentType ''application/json''
         then Inl (HttpError 415 ''Content-Type must be application/json'')
         else Inr ())"

text \<open>
  \<open>normalizeMessages\<close>: a string body is parsed first; an array is the batch, an
  object a batch of one, anything else is refused.
\<close>

definition normalizeMessages :: "env \<Rightarrow> json \<Rightarrow> js_error + json list" where
  "normalizeMessages env b =
     (case (case b of
              JStr s \<Rightarrow> (case JSON_parse env s of
                           None \<Rightarrow> Inl (HttpError 400 ''Invalid JSON body'')
                         | Some v \<Rightarrow> Inr v)
            | _ \<Rightarrow> Inr b) of
        Inl e \<Rightarrow> Inl e
      | Inr payload \<Rightarrow>
          (case payload of
             JArr xs \<Rightarrow> Inr xs
           | JObj kvs \<Rightarrow> Inr [payload]
           | _ \<Rightarrow> Inl (HttpError 400 ''Invalid JSON-RPC payload'')))"

section \<open>Session store\<close>

text \<open>
  A \<open>Session\<close> object is shared between the map and the handler that loaded it, and
  the handler mutates it in place. The handlers below hold the key under which the
  object is stored, and a mutation rewrites the entry of that key: between the load
  and the mutation no entry is removed.
\<close>

fun mutate ::
  "string \<Rightarrow> (session \<Rightarrow> session) \<Rightarrow> (string \<times> session) list \<Rightarrow> (string \<times> session) list" where
  "mutate k f [] = []"
| "mutate k f ((k', s) # rest) =
     (if k' = k then (k', f s) # rest else (k', s) # mutate k f rest)"

definition Date_now :: "env \<Rightarrow> server \<Rightarrow> int \<times> server" where
  "Date_now env st = (now_at env (clock_reads st), st\<lparr>clock_reads := Suc (clock_reads st)\<rparr>)"

definition uuidv4 :: "env \<Rightarrow> server \<Rightarrow> string \<times> server" where
  "uuidv4 env st = (uuid_at env (uuids_made st), st\<lparr>uuids_made := Suc (uuids_made st)\<rparr>)"

definition callTool ::
  "env \<Rightarrow> string \<Rightarrow> json option \<Rightarrow> server \<Rightarrow> (js_error + json) \<times> server" where
  "callTool env name args st =
     (tool_at env (tool_calls st) name args, st\<lparr>tool_calls := Suc (tool_calls st)\<rparr>)"

definition createSession :: "env \<Rightarrow> server \<Rightarrow> string \<times> server" where
  "createSession env st =
     (let (i, st1) = uuidv4 env st;
          (now, st2) = Date_now env st1;
          session = \<lparr>id_field = i, createdAt = now, lastActivity = now, initialized = False\<rparr>
      in (i, st2\<lparr>sessions := AList.update i session (sessions st2)\<rparr>))"

definition requireSessionHeader :: "string option \<Rightarrow> js_error + string" where
  "requireSessionHeader sessionId =
     (case sessionId of
        None \<Rightarrow> Inl (HttpError 400 ''Missing Mcp-Session-Id header'')
      | Some h \<Rightarrow> if h = [] then Inl (HttpError 400 ''Missing Mcp-Session-Id header'') else Inr h)"

definition loadSession :: "server \<Rightarrow> string \<Rightarrow> js_error + session" where
  "loadSession st sessionId =
     (case map_of (sessions st) sessionId of
        None \<Rightarrow> Inl (HttpError 404 ''Session not found'')
      | Some session \<Rightarrow> Inr session)"

definition touchSession :: "env \<Rightarrow> string \<Rightarrow> server \<Rightarrow> server" where
  "touchSession env k st =
     (let (now, st1) = Date_now env st
      in st1\<lparr>sessions := mutate k (\<lambda>s. s\<lparr>lastActivity := now\<rparr>) (sessions st1)\<rparr>)"

text \<open>
  The timer callback: one reading of the clock, then a loop over the entries that
  deletes every session idle for at least the timeout.
\<close>

fun sweep_loop ::
  "int \<Rightarrow> (string \<times> session) list \<Rightarrow> (string \<times> session) list \<Rightarrow> (string \<times> session) list" where
  "sweep_loop now [] m = m"
| "sweep_loop now ((sessionId, session) # entries) m =
     (if now - lastActivity session \<ge> SESSION_TIMEOUT_MS
      then sweep_loop now entries (AList.delete sessionId m)
      else sweep_loop now entries m)"

definition sweep :: "env \<Rightarrow> server \<Rightarrow> server" where
  "sweep env st =
     (let (now, st1) = Date_now env st
      in st1\<lparr>sessions := sweep_loop now (sessions st1) (sessions st1)\<rparr>)"

section \<open>Notifications\<close>

definition notification_step :: "env \<Rightarrow> string \<Rightarrow> json \<Rightarrow> server \<Rightarrow> server" where
  "notification_step env k notification st =
     (let m = get notification ''method'' in
      if m = Some (JStr ''initialized'') then
        touchSession env k (st\<lparr>sessions := mutate k (\<lambda>s. s\<lparr>initialized := True\<rparr>) (sessions st)\<rparr>)
      else if m = Some (JStr ''notifications/cancelled'') \<or> m = Some (JStr ''notifications/progress'')
      then touchSession env k st
      else st)"

fun notification_loop :: "env \<Rightarrow> string \<Rightarrow> json list \<Rightarrow> server \<Rightarrow> server" where
  "notification_loop env k [] st = st"
| "notification_loop env k (notification # rest) st =
     notification_loop env k rest (notification_step env k notification st)"

definition processNotifications ::
  "env \<Rightarrow> string option \<Rightarrow> json list \<Rightarrow> server \<Rightarrow> (js_error + unit) \<times> server" where
  "processNotifications env headerSessionId notifications st =
     (if notifications = [] then (Inr (), st)
      else case requireSessionHeader headerSessionId of
             Inl e \<Rightarrow> (Inl e, st)
           | Inr sessionId \<Rightarrow>
               (case loadSession st sessionId of
                  Inl e \<Rightarrow> (Inl e, st)
                | Inr session \<Rightarrow> (Inr (), notification_loop env sessionId notifications st)))"

section \<open>Request dispatcher\<close>

definition ensureSession :: "env \<Rightarrow> string option \<Rightarrow> js_error + string" where
  "ensureSession env session =
     (case session of
        None \<Rightarrow> Inl (RpcError (InvalidRequest env) ''Request requires an active session'')
      | Some k \<Rightarrow> Inr k)"

text \<open>
  \<open>handleRpcRequest\<close>: the switch on \<open>request.method\<close>. The result is the pair of
  \<open>result\<close> and \<open>newSessionId\<close>, or the exception thrown. A classified Request has a
  string method, so the last case is not reached from the endpoint.
\<close>

definition handleRpcRequest ::
  "env \<Rightarrow> json \<Rightarrow> string option \<Rightarrow> server \<Rightarrow> (js_error + (json \<times> string option)) \<times> server" where
  "handleRpcRequest env request session st =
     (case get request ''method'' of
        Some (JStr m) \<Rightarrow>
          if m = ''initialize'' then
            (let (newSession, st1) = createSession env st;
                 requestedVersion = optional_get (get request ''params'') ''protocolVersion'';
                 protocolVersion =
                   (case requestedVersion of
                      Some (JStr v) \<Rightarrow>
                        if v \<in> set (SUPPORTED_PROTOCOL_VERSIONS env) then v
                        else LATEST_PROTOCOL_VERSION env
                    | _ \<Rightarrow> LATEST_PROTOCOL_VERSION env);
                 result = JObj
                   [(''protocolVersion'', JStr protocolVersion),
                    (''capabilities'', JObj [(''tools'', JObj [])]),
                    (''serverInfo'', JObj [(''name'', JStr ''mcp-cerebra-legal-server''),
                                           (''version'', JStr ''2.0.0'')])]
             in (Inr (result, Some newSession), st1))
          else if m = ''ping'' then
            (case ensureSession env session of
               Inl e \<Rightarrow> (Inl e, st)
             | Inr currentSession \<Rightarrow> (Inr (JObj [], None), touchSession env currentSession st))
          else if m = ''tools/list'' then
            (case ensureSession env session of
               Inl e \<Rightarrow> (Inl e, st)
             | Inr currentSession \<Rightarrow>
                 (Inr (JObj [(''tools'', listTools env)], None), touchSession env currentSession st))
          else if m = ''tools/call'' then
            (case ensureSession env session of
               Inl e \<Rightarrow> (Inl e, st)
             | Inr currentSession \<Rightarrow>
                 (let st1 = touchSession env currentSession st in
                  case optional_get (get request ''params'') ''name'' of
                    Some (JStr name) \<Rightarrow>
                      (let args = optional_get (get request ''params'') ''arguments'';
                           (toolResult, st2) = callTool env name args st1
                       in case toolResult of
                            Inl e \<Rightarrow> (Inl e, st2)
                          | Inr r \<Rightarrow> (Inr (r, None), st2))
                  | _ \<Rightarrow> (Inl (RpcError (InvalidParams env) ''Tool name is required''), st1)))
          else (Inl (RpcError (MethodNotFound env) (''Unsupported method: '' @ m)), st)
      | _ \<Rightarrow> (Inl (RpcError (MethodNotFound env) ''Unsupported method: undefined''), st))"

definition createErrorResponse :: "env \<Rightarrow> json option \<Rightarrow> js_error \<Rightarrow> frame" where
  "createErrorResponse env i error =
     (case error of
        RpcError code message \<Rightarrow> ErrorFrame i code message
      | _ \<Rightarrow> ErrorFrame i (InternalError env) ''Internal server error'')"

definition handleHttpError :: "js_error \<Rightarrow> response" where
  "handleHttpError error =
     (case error of
        HttpError status message \<Rightarrow> Plain status (Some message)
      | _ \<Rightarrow> Plain 500 (Some ''Internal server error''))"

section \<open>Concurrent tasks and the event stream\<close>

text \<open>
  One task of \<open>requests.map(async ...)\<close>: the frame it hands to \<open>sendSseMessage\<close> and
  the session identifier it offers for the response header. Every store access of a task happens
  before its first suspension, so the tasks change the state in the order of the
  requests; only their frames are written later, in the order of completion.
\<close>

definition task ::
  "env \<Rightarrow> string option \<Rightarrow> json \<Rightarrow> server \<Rightarrow> (frame \<times> string option) \<times> server" where
  "task env session request st =
     (case handleRpcRequest env request session st of
        (Inr (result, newSessionId), st1) \<Rightarrow>
          ((ResultFrame (get request ''id'') result, newSessionId), st1)
      | (Inl error, st1) \<Rightarrow>
          ((createErrorResponse env (get request ''id'') error, None), st1))"

fun run_tasks ::
  "env \<Rightarrow> string option \<Rightarrow> json list \<Rightarrow> server \<Rightarrow> (frame \<times> string option) list \<times> server" where
  "run_tasks env session [] st = ([], st)"
| "run_tasks env session (request # rest) st =
     (let (out, st1) = task env session request st;
          (outs, st2) = run_tasks env session rest st1
      in (out # outs, st2))"

text \<open>
  The order of completion is not fixed by the code. A schedule is a list of numbers:
  at each step the pending task at position \<open>k mod n\<close> (of \<open>n\<close> pending) completes next;
  when the schedule is used up the remaining tasks complete in the order submitted.
\<close>

function completion_order :: "nat list \<Rightarrow> 'a list \<Rightarrow> 'a list" where
  "completion_order sch [] = []"
| "completion_order [] (x # xs) = x # xs"
| "completion_order (k # ks) (x # xs) =
     (let i = k mod length (x # xs)
      in (x # xs) ! i # completion_order ks (take i (x # xs) @ drop (Suc i) (x # xs)))"
  by pat_completeness auto
termination
  by (relation "measure (\<lambda>(sch, xs). length xs)") auto

text \<open>
  The response header: the first task to complete with a non-empty \<open>newSessionId\<close>
  sets it (\<open>sessionIdResponseSet\<close>).
\<close>

fun session_header :: "(frame \<times> string option) list \<Rightarrow> string option" where
  "session_header [] = None"
| "session_header ((f, None) # rest) = session_header rest"
| "session_header ((f, Some n) # rest) = (if n = [] then session_header rest else Some n)"

text \<open>
  \<open>sendSseMessage\<close> writes \<open>JSON.stringify(message)\<close>. \<open>serialise v\<close> is the value the
  written text denotes: \<open>JSON.stringify\<close> writes a number that is not finite as
  \<open>null\<close>, at any depth, and every other value as itself. A member whose value is
  \<open>undefined\<close> is left out, so an absent \<open>id\<close> stays absent.
\<close>

primrec serialise :: "json \<Rightarrow> json" where
  "serialise JNull = JNull"
| "serialise (JBool b) = JBool b"
| "serialise (JNum n) = JNum n"
| "serialise JInfinity = JNull"
| "serialise JNegInfinity = JNull"
| "serialise (JStr s) = JStr s"
| "serialise (JArr xs) = JArr (map serialise xs)"
| "serialise (JObj kvs) = JObj (map (map_prod id serialise) kvs)"

fun sendSseMessage :: "frame \<Rightarrow> frame" where
  "sendSseMessage (ResultFrame i result) = ResultFrame (map_option serialise i) (serialise result)"
| "sendSseMessage (ErrorFrame i code message) = ErrorFrame (map_option serialise i) code message"

section \<open>The POST handler\<close>

text \<open>The session bound to the batch (lines 135 to 142 of the file).\<close>

definition bind_session :: "server \<Rightarrow> string option \<Rightarrow> json list \<Rightarrow> js_error + string option" where
  "bind_session st headerSessionId requests =
     (let requiresSession = list_ex (\<lambda>r. get r ''method'' \<noteq> Some (JStr ''initialize'')) requests
      in if requiresSession then
           (case requireSessionHeader headerSessionId of
              Inl e \<Rightarrow> Inl e
            | Inr sessionId \<Rightarrow>
                (case loadSession st sessionId of
                   Inl e \<Rightarrow> Inl e
                 | Inr session \<Rightarrow> Inr (Some sessionId)))
         else (case headerSessionId of
                 None \<Rightarrow> Inr None
               | Some h \<Rightarrow> Inr (if map_of (sessions st) h = None then None else Some h)))"

text \<open>
  The handler from \<open>partitionMessages\<close> on, inside the \<open>try\<close>. All its accesses to
  the store happen in one run of the event loop: the only suspension before the tasks
  is the \<open>await\<close> of \<open>processNotifications\<close>, which lets only microtasks run, and no
  continuation of this server touches the store after an \<open>await\<close>. So no other
  handler and no sweep comes between, and the handler is a function of the state.
  Writing to the response is taken not to throw.
\<close>

definition post_messages ::
  "env \<Rightarrow> nat list \<Rightarrow> string option \<Rightarrow> json list \<Rightarrow> server \<Rightarrow> (js_error + response) \<times> server" where
  "post_messages env schedule headerSessionId messages st =
     (case partitionMessages messages of
        Inl e \<Rightarrow> (Inl e, st)
      | Inr (requests, notifications, responses) \<Rightarrow>
          (case processNotifications env headerSessionId notifications st of
             (Inl e, st1) \<Rightarrow> (Inl e, st1)
           | (Inr u, st1) \<Rightarrow>
               if requests = [] then (Inr (Plain 202 None), st1)
               else
                 (let hasInitialize =
                        list_ex (\<lambda>r. get r ''method'' = Some (JStr ''initialize'')) requests
                  in if hasInitialize \<and> length requests > 1
                     then (Inl (HttpError 400 ''Initialize request must be sent separately.''), st1)
                     else
                       (case bind_session st1 headerSessionId requests of
                          Inl e \<Rightarrow> (Inl e, st1)
                        | Inr session \<Rightarrow>
                            (let (outs, st2) = run_tasks env session requests st1;
                                 written = completion_order schedule outs
                             in (Inr (Stream (session_header written)
                                        (map (sendSseMessage \<circ> fst) written)), st2))))))"

text \<open>\<open>req.header('Mcp-Session-Id') || undefined\<close>: an empty header counts as absent.\<close>

definition headerSessionId :: "request \<Rightarrow> string option" where
  "headerSessionId req =
     (case mcp_session_id req of
        None \<Rightarrow> None
      | Some h \<Rightarrow> if h = [] then None else Some h)"

text \<open>The body of the \<open>try\<close> block of \<open>app.post(MCP_ENDPOINT)\<close>.\<close>

definition post_try ::
  "env \<Rightarrow> nat list \<Rightarrow> request \<Rightarrow> server \<Rightarrow> (js_error + response) \<times> server" where
  "post_try env schedule req st =
     (case enforceAcceptHeader req of
        Inl e \<Rightarrow> (Inl e, st)
      | Inr u \<Rightarrow>
          (case enforceJsonContent req of
             Inl e \<Rightarrow> (Inl e, st)
           | Inr u \<Rightarrow>
               (case normalizeMessages env (body req) of
                  Inl e \<Rightarrow> (Inl e, st)
                | Inr messages \<Rightarrow>
                    if messages = [] then (Inl (HttpError 400 ''Empty JSON-RPC payload''), st)
                    else post_messages env schedule (headerSessionId req) messages st)))"

text \<open>The handler: what the \<open>try\<close> block throws goes to \<open>handleHttpError\<close>.\<close>

definition post_mcp :: "env \<Rightarrow> nat list \<Rightarrow> request \<Rightarrow> server \<Rightarrow> response \<times> server" where
  "post_mcp env schedule req st =
     (case post_try env schedule req st of
        (Inl error, st1) \<Rightarrow> (handleHttpError error, st1)
      | (Inr res, st1) \<Rightarrow> (res, st1))"

section \<open>Predicates of the statements\<close>

text \<open>No number in the value is \<open>Infinity\<close> or \<open>-Infinity\<close>.\<close>

fun all_finite :: "json \<Rightarrow> bool" where
  "all_finite JInfinity = False"
| "all_finite JNegInfinity = False"
| "all_finite (JArr xs) = list_all all_finite xs"
| "all_finite (JObj kvs) = list_all (\<lambda>kv. all_finite (snd kv)) kvs"
| "all_finite v = True"

text \<open>The invariant of a \<open>Map\<close>: no key occurs twice.\<close>

definition store_ok :: "server \<Rightarrow> bool" where
  "store_ok st = distinct (map fst (sessions st))"

text \<open>
  The last activity of \<open>s'\<close> is a reading of the clock taken between the states \<open>st\<close>
  and \<open>st'\<close>.
\<close>

definition refreshed :: "env \<Rightarrow> server \<Rightarrow> server \<Rightarrow> session \<Rightarrow> bool" where
  "refreshed env st st' s' =
     (\<exists>j \<in> {clock_reads st ..< clock_reads st'}. lastActivity s' = now_at env j)"

section \<open>Concrete inputs\<close>

definition demo_env :: env where
  "demo_env =
     \<lparr>now_at = (\<lambda>n. 1800000 + int n),
      uuid_at = (\<lambda>n. ''fresh-session''),
      tool_at = (\<lambda>n name args.
         if name = ''legal_think'' then Inr (JObj [(''content'', JArr [])])
         else Inl (Error ''upstream service failed'')),
      listTools = JArr [],
      JSON_parse = (\<lambda>s. None),
      LATEST_PROTOCOL_VERSION = ''2025-03-26'',
      SUPPORTED_PROTOCOL_VERSIONS = [''2025-03-26'', ''2024-11-05''],
      InvalidRequest = - 32600,
      MethodNotFound = - 32601,
      InvalidParams = - 32602,
      InternalError = - 32603\<rparr>"

definition demo_session :: session where
  "demo_session = \<lparr>id_field = ''s1'', createdAt = 0, lastActivity = 0, initialized = False\<rparr>"

definition demo_server :: server where
  "demo_server = \<lparr>sessions = [(''s1'', demo_session)], clock_reads = 0, uuids_made = 0, tool_calls = 0\<rparr>"

definition demo_request :: "string option \<Rightarrow> json \<Rightarrow> request" where
  "demo_request h b =
     \<lparr>accept = Some ''application/json, text/event-stream'',
      content_type = Some ''application/json'',
      mcp_session_id = h,
      body = b\<rparr>"

definition ping_request :: "rat \<Rightarrow> json" where
  "ping_request i = JObj [(''jsonrpc'', JStr ''2.0''), (''id'', JNum i), (''method'', JStr ''ping'')]"

definition initialize_request :: "rat \<Rightarrow> json" where
  "initialize_request i =
     JObj [(''jsonrpc'', JStr ''2.0''), (''id'', JNum i), (''method'', JStr ''initialize''),
           (''params'', JObj [(''protocolVersion'', JStr ''2024-11-05'')])]"

definition tool_request :: "rat \<Rightarrow> string \<Rightarrow> json" where
  "tool_request i name =
     JObj [(''jsonrpc'', JStr ''2.0''), (''id'', JNum i), (''method'', JStr ''tools/call''),
           (''params'', JObj [(''name'', JStr name), (''arguments'', JObj [])])]"

definition initialized_notification :: json where
  "initialized_notification = JObj [(''jsonrpc'', JStr ''2.0''), (''method'', JStr ''initialized'')]"

definition client_response :: json where
  "client_response = JObj [(''jsonrpc'', JStr ''2.0''), (''id'', JNum 9), (''result'', JObj [])]"

definition demo_batch :: "json list" where
  "demo_batch = [tool_request 1 ''legal_think'', ping_request 2, ping_request 3]"



text \<open>The ping \<open>{"jsonrpc":"2.0","id":1e400,"method":"ping"}\<close>, decoded.\<close>

definition overflow_request :: json where
  "overflow_request =
     JObj [(''jsonrpc'', JStr ''2.0''), (''id'', JInfinity), (''method'', JStr ''ping'')]"

definition handshake_batch :: "json list" where
  "handshake_batch = [initialize_request 1, ping_request 2]"

definition mixed_batch :: "json list" where
  "mixed_batch = [initialized_notification, initialize_request 1, ping_request 2]"

section \<open>Classification and partitioning\<close>

lemma has_string_method_conv: "has_string_method m = is_string (get m ''method'')"
  by (cases m) (auto split: option.splits json.splits)

lemma has_key: "(\<exists>y. map_of kvs k = Some y) = (k \<in> fst ` set kvs)"
  by (metis map_of_eq_None_iff not_None_eq)

lemma isRequest_eq: "m \<noteq> JNull \<Longrightarrow> isRequest m = Inr (is_Request m)"
  by (cases m)
    (simp_all add: is_Request_def has_string_method_conv has_key map_of_eq_None_iff
       del: has_string_method.simps)

lemma isNotification_eq: "m \<noteq> JNull \<Longrightarrow> isNotification m = Inr (is_Notification m)"
  by (cases m)
    (simp_all add: is_Notification_def has_string_method_conv has_key map_of_eq_None_iff
       del: has_string_method.simps)

lemma exactly_one_kind:
  "(is_Request m \<or> is_Notification m \<or> is_Response m) \<and>
   \<not> (is_Request m \<and> is_Notification m) \<and>
   \<not> (is_Request m \<and> is_Response m) \<and>
   \<not> (is_Notification m \<and> is_Response m)"
  by (auto simp: is_Request_def is_Notification_def is_Response_def)

lemma partition_loop_step:
  assumes "m \<noteq> JNull"
  shows "partition_loop (m # ms) (a, b, c) =
     partition_loop ms
       (a @ filter is_Request [m], b @ filter is_Notification [m], c @ filter is_Response [m])"
proof -
  consider (r) "is_Request m" "\<not> is_Notification m" "\<not> is_Response m"
    | (n) "\<not> is_Request m" "is_Notification m" "\<not> is_Response m"
    | (p) "\<not> is_Request m" "\<not> is_Notification m" "is_Response m"
    using exactly_one_kind[of m] by blast
  then show ?thesis
    by cases (simp_all add: isRequest_eq[OF assms] isNotification_eq[OF assms])
qed

lemma partition_loop_filter:
  "JNull \<notin> set ms \<Longrightarrow>
   partition_loop ms (a, b, c) =
     Inr (a @ filter is_Request ms, b @ filter is_Notification ms, c @ filter is_Response ms)"
proof (induction ms arbitrary: a b c)
  case Nil
  then show ?case by simp
next
  case (Cons m ms)
  from Cons.prems have m: "m \<noteq> JNull" and ms: "JNull \<notin> set ms" by auto
  show ?case
    by (simp only: partition_loop_step[OF m] Cons.IH[OF ms]) simp
qed

lemma mset_three_filters:
  "mset (filter is_Request ms) + mset (filter is_Notification ms) + mset (filter is_Response ms)
     = mset ms"
proof -
  have n: "filter is_Notification ms = filter is_Notification (filter (\<lambda>m. \<not> is_Request m) ms)"
    by (rule sym, simp only: filter_filter, rule filter_cong, simp, use exactly_one_kind in blast)
  have p: "filter is_Response ms
             = filter (\<lambda>m. \<not> is_Notification m) (filter (\<lambda>m. \<not> is_Request m) ms)"
    by (rule sym, simp only: filter_filter, rule filter_cong, simp, use exactly_one_kind in blast)
  have "mset (filter is_Notification ms) + mset (filter is_Response ms)
          = mset (filter (\<lambda>m. \<not> is_Request m) ms)"
    unfolding n p by (simp only: mset_filter multiset_partition[symmetric])
  moreover have "mset (filter is_Request ms) + mset (filter (\<lambda>m. \<not> is_Request m) ms) = mset ms"
    by (simp only: mset_filter multiset_partition[symmetric])
  ultimately show ?thesis by (simp only: add.assoc)
qed

text \<open>
  Claim C1. For a decoded batch of JSON-RPC messages (no element is \<open>null\<close>),
  \<open>partitionMessages\<close> returns three sequences: the messages with a string method and
  an identifier, in input order; those with a string method and no identifier, in
  input order; and all others, in input order. Every message is of exactly one of the
  three kinds, and the three sequences together hold each input message exactly as
  often as the batch does.
\<close>

theorem partition_exact:
  assumes "JNull \<notin> set messages"
  shows "partitionMessages messages =
           Inr (filter is_Request messages, filter is_Notification messages,
                filter is_Response messages)
         \<and> (\<forall>m. (is_Request m \<or> is_Notification m \<or> is_Response m)
                \<and> \<not> (is_Request m \<and> is_Notification m)
                \<and> \<not> (is_Request m \<and> is_Response m)
                \<and> \<not> (is_Notification m \<and> is_Response m))
         \<and> mset (filter is_Request messages) + mset (filter is_Notification messages)
             + mset (filter is_Response messages) = mset messages"
  using partition_loop_filter[OF assms, of "[]" "[]" "[]"] exactly_one_kind mset_three_filters
  by (simp add: partitionMessages_def)

theorem partition_exact_witness:
  "JNull \<notin> set [initialized_notification, ping_request 1, JNum 5, client_response, ping_request 2]
   \<and> partitionMessages
        [initialized_notification, ping_request 1, JNum 5, client_response, ping_request 2]
      = Inr ([ping_request 1, ping_request 2], [initialized_notification], [JNum 5, client_response])"
  using partition_exact[of "[initialized_notification, ping_request 1, JNum 5, client_response, ping_request 2]"]
  by (simp add: initialized_notification_def ping_request_def client_response_def
        is_Request_def is_Notification_def is_Response_def)

section \<open>Session store: the idle sweep\<close>

lemma map_of_mutate:
  "map_of (mutate k f m) k' = (if k' = k then map_option f (map_of m k) else map_of m k')"
  by (induction m) auto

lemma keys_mutate: "map fst (mutate k f m) = map fst m"
  by (induction m) auto

lemma sweep_loop_map_of:
  "map_of (sweep_loop now es m) k =
     (if \<exists>s. (k, s) \<in> set es \<and> SESSION_TIMEOUT_MS \<le> now - lastActivity s then None
      else map_of m k)"
proof (induction es arbitrary: m)
  case Nil
  then show ?case by simp
next
  case (Cons e es)
  obtain k' s' where e: "e = (k', s')" by (cases e)
  show ?case
    unfolding e by (auto simp: Cons.IH AList.delete_conv')
qed

lemma sweep_map_of:
  assumes "distinct (map fst (sessions st))" "map_of (sessions st) k = Some s"
  shows "map_of (sessions (sweep env st)) k =
           (if SESSION_TIMEOUT_MS \<le> now_at env (clock_reads st) - lastActivity s then None else Some s)"
proof -
  have in_set: "(k, s) \<in> set (sessions st)"
    using assms(2) by (rule map_of_SomeD)
  have uniq: "\<And>s'. (k, s') \<in> set (sessions st) \<Longrightarrow> s' = s"
    using assms by (metis map_of_is_SomeI option.inject)
  have ex: "(\<exists>s'. (k, s') \<in> set (sessions st) \<and> SESSION_TIMEOUT_MS \<le> now - lastActivity s')
              = (SESSION_TIMEOUT_MS \<le> now - lastActivity s)" for now
    using in_set uniq by blast
  have "sessions (sweep env st) = sweep_loop (now_at env (clock_reads st)) (sessions st) (sessions st)"
    by (simp add: sweep_def Date_now_def)
  then show ?thesis
    by (simp only: sweep_loop_map_of ex assms(2))
qed

lemma touchSession_sessions:
  "sessions (touchSession env k st) = mutate k (\<lambda>s. s\<lparr>lastActivity := now_at env (clock_reads st)\<rparr>) (sessions st)"
  "clock_reads (touchSession env k st) = Suc (clock_reads st)"
  "uuids_made (touchSession env k st) = uuids_made st"
  "tool_calls (touchSession env k st) = tool_calls st"
  by (simp_all add: touchSession_def Date_now_def)

text \<open>
  Claim C4. When the sweep runs on a store with the session \<open>s\<close> under the key \<open>k\<close>:
  if the idle time of \<open>s\<close> (the clock reading of the sweep minus its last activity) is
  at least the timeout, the session is removed and a load of \<open>k\<close> on the resulting
  store fails with 404 "Session not found"; otherwise the load returns \<open>s\<close>
  unchanged. In particular a session touched before the sweep, less than the timeout
  earlier, is loadable afterwards with the time of the touch as its last activity.
  (\<open>loadSession\<close> itself does not look at the idle time: the eviction is the sweep's.)
\<close>

theorem idle_sessions_evicted:
  assumes "distinct (map fst (sessions st))" and "map_of (sessions st) k = Some s"
  shows "loadSession (sweep env st) k =
           (if SESSION_TIMEOUT_MS \<le> now_at env (clock_reads st) - lastActivity s
            then Inl (HttpError 404 ''Session not found'') else Inr s)
         \<and> loadSession (sweep env (touchSession env k st)) k =
           (if SESSION_TIMEOUT_MS \<le> now_at env (Suc (clock_reads st)) - now_at env (clock_reads st)
            then Inl (HttpError 404 ''Session not found'')
            else Inr (s\<lparr>lastActivity := now_at env (clock_reads st)\<rparr>))"
proof -
  let ?st1 = "touchSession env k st"
  have d1: "distinct (map fst (sessions ?st1))"
    using assms(1) by (simp add: touchSession_sessions keys_mutate)
  have m1: "map_of (sessions ?st1) k = Some (s\<lparr>lastActivity := now_at env (clock_reads st)\<rparr>)"
    using assms(2) by (simp add: touchSession_sessions map_of_mutate)
  have a: "map_of (sessions (sweep env st)) k =
           (if SESSION_TIMEOUT_MS \<le> now_at env (clock_reads st) - lastActivity s then None else Some s)"
    by (rule sweep_map_of[OF assms])
  have b: "map_of (sessions (sweep env ?st1)) k =
           (if SESSION_TIMEOUT_MS \<le> now_at env (Suc (clock_reads st)) - now_at env (clock_reads st)
            then None else Some (s\<lparr>lastActivity := now_at env (clock_reads st)\<rparr>))"
    using sweep_map_of[OF d1 m1, of env] by (simp add: touchSession_sessions)
  show ?thesis
    unfolding loadSession_def a b by simp
qed

theorem idle_sessions_evicted_witness:
  "distinct (map fst (sessions demo_server))
   \<and> map_of (sessions demo_server) ''s1'' = Some demo_session
   \<and> loadSession (sweep demo_env demo_server) ''s1'' = Inl (HttpError 404 ''Session not found'')
   \<and> loadSession (sweep demo_env (touchSession demo_env ''s1'' demo_server)) ''s1''
       = Inr (demo_session\<lparr>lastActivity := 1800000\<rparr>)"
proof -
  have d: "distinct (map fst (sessions demo_server))"
    by (simp add: demo_server_def)
  have m: "map_of (sessions demo_server) ''s1'' = Some demo_session"
    by (simp add: demo_server_def)
  show ?thesis
    using d m idle_sessions_evicted[OF d m, of demo_env]
    by (simp add: demo_env_def demo_server_def demo_session_def SESSION_TIMEOUT_MS_def)
qed

section \<open>Dispatcher: the handshake\<close>

lemma createSession_eq:
  "createSession env st =
     (uuid_at env (uuids_made st),
      st\<lparr>uuids_made := Suc (uuids_made st), clock_reads := Suc (clock_reads st),
         sessions := AList.update (uuid_at env (uuids_made st))
            \<lparr>id_field = uuid_at env (uuids_made st), createdAt = now_at env (clock_reads st),
             lastActivity = now_at env (clock_reads st), initialized = False\<rparr> (sessions st)\<rparr>)"
  by (simp add: createSession_def uuidv4_def Date_now_def)

text \<open>
  Claim C7. For a handshake (\<open>initialize\<close>) Request the dispatcher returns a result
  whose \<open>protocolVersion\<close> is the version the client requested in
  \<open>params.protocolVersion\<close> when that is a string of the supported set, and the latest
  supported version in every other case (no parameters, no such member, a member that
  is not a string, or a string outside the set).
\<close>

theorem handshake_version:
  assumes "get request ''method'' = Some (JStr ''initialize'')"
  shows "\<exists>version.
           fst (handleRpcRequest env request session st) =
             Inr (JObj [(''protocolVersion'', JStr version),
                        (''capabilities'', JObj [(''tools'', JObj [])]),
                        (''serverInfo'', JObj [(''name'', JStr ''mcp-cerebra-legal-server''),
                                               (''version'', JStr ''2.0.0'')])],
                  Some (uuid_at env (uuids_made st)))
           \<and> (\<forall>v. optional_get (get request ''params'') ''protocolVersion'' = Some (JStr v)
                    \<and> v \<in> set (SUPPORTED_PROTOCOL_VERSIONS env) \<longrightarrow> version = v)
           \<and> ((\<forall>v. optional_get (get request ''params'') ''protocolVersion'' = Some (JStr v)
                    \<longrightarrow> v \<notin> set (SUPPORTED_PROTOCOL_VERSIONS env))
                \<longrightarrow> version = LATEST_PROTOCOL_VERSION env)"
proof (cases "\<exists>v. optional_get (get request ''params'') ''protocolVersion'' = Some (JStr v)
                    \<and> v \<in> set (SUPPORTED_PROTOCOL_VERSIONS env)")
  case True
  then obtain v where v: "optional_get (get request ''params'') ''protocolVersion'' = Some (JStr v)"
    "v \<in> set (SUPPORTED_PROTOCOL_VERSIONS env)" by blast
  show ?thesis
    by (rule exI[of _ v]) (simp add: handleRpcRequest_def assms createSession_eq v)
next
  case False
  then have "(case optional_get (get request ''params'') ''protocolVersion'' of
                 Some (JStr v) \<Rightarrow> if v \<in> set (SUPPORTED_PROTOCOL_VERSIONS env) then v
                                  else LATEST_PROTOCOL_VERSION env
               | _ \<Rightarrow> LATEST_PROTOCOL_VERSION env) = LATEST_PROTOCOL_VERSION env"
    by (auto split: option.splits json.splits)
  then have "fst (handleRpcRequest env request session st) =
             Inr (JObj [(''protocolVersion'', JStr (LATEST_PROTOCOL_VERSION env)),
                        (''capabilities'', JObj [(''tools'', JObj [])]),
                        (''serverInfo'', JObj [(''name'', JStr ''mcp-cerebra-legal-server''),
                                               (''version'', JStr ''2.0.0'')])],
                  Some (uuid_at env (uuids_made st)))"
    by (simp add: handleRpcRequest_def assms createSession_eq)
  with False show ?thesis by blast
qed

theorem handshake_version_witness:
  "get (initialize_request 1) ''method'' = Some (JStr ''initialize'')
   \<and> get (JObj [(''id'', JNum 2), (''method'', JStr ''initialize'')]) ''method'' = Some (JStr ''initialize'')
   \<and> (\<exists>result. fst (handleRpcRequest demo_env (initialize_request 1) None demo_server)
                   = Inr (result, Some ''fresh-session'')
                 \<and> get result ''protocolVersion'' = Some (JStr ''2024-11-05''))
   \<and> (\<exists>result. fst (handleRpcRequest demo_env
                         (JObj [(''id'', JNum 2), (''method'', JStr ''initialize'')]) None demo_server)
                   = Inr (result, Some ''fresh-session'')
                 \<and> get result ''protocolVersion'' = Some (JStr ''2025-03-26''))"
proof -
  have a: "get (initialize_request 1) ''method'' = Some (JStr ''initialize'')"
    by (simp add: initialize_request_def)
  have b: "get (JObj [(''id'', JNum 2), (''method'', JStr ''initialize'')]) ''method''
             = Some (JStr ''initialize'')"
    by simp
  have ra: "optional_get (get (initialize_request 1) ''params'') ''protocolVersion''
              = Some (JStr ''2024-11-05'')"
    by (simp add: initialize_request_def)
  have rb: "optional_get (get (JObj [(''id'', JNum 2), (''method'', JStr ''initialize'')]) ''params'')
              ''protocolVersion'' = None"
    by simp
  from handshake_version[OF a, of demo_env None demo_server]
  have 1: "\<exists>result. fst (handleRpcRequest demo_env (initialize_request 1) None demo_server)
                   = Inr (result, Some ''fresh-session'')
                 \<and> get result ''protocolVersion'' = Some (JStr ''2024-11-05'')"
    unfolding ra by (auto simp: demo_env_def demo_server_def)
  from handshake_version[OF b, of demo_env None demo_server]
  have 2: "\<exists>result. fst (handleRpcRequest demo_env
                         (JObj [(''id'', JNum 2), (''method'', JStr ''initialize'')]) None demo_server)
                   = Inr (result, Some ''fresh-session'')
                 \<and> get result ''protocolVersion'' = Some (JStr ''2025-03-26'')"
    unfolding rb by (auto simp: demo_env_def demo_server_def)
  from a b 1 2 show ?thesis by blast
qed

section \<open>Tasks and frames\<close>

lemma task_cases:
  "task env session r st =
     (case fst (handleRpcRequest env r session st) of
        Inr (result, newSessionId) \<Rightarrow> (ResultFrame (get r ''id'') result, newSessionId)
      | Inl e \<Rightarrow> (createErrorResponse env (get r ''id'') e, None),
      snd (handleRpcRequest env r session st))"
  by (cases "handleRpcRequest env r session st")
     (auto simp: task_def split: sum.splits prod.splits)

lemma createErrorResponse_id: "frame_id (createErrorResponse env i e) = i"
  by (cases e) (simp_all add: createErrorResponse_def)

lemma task_frame_id: "frame_id (fst (fst (task env session r st))) = get r ''id''"
  by (simp add: task_cases createErrorResponse_id split: sum.splits prod.splits)

lemma run_tasks_Cons:
  "run_tasks env session (r # rs) st =
     (fst (task env session r st) # fst (run_tasks env session rs (snd (task env session r st))),
      snd (run_tasks env session rs (snd (task env session r st))))"
  by (simp add: split_beta)

lemma run_tasks_length: "length (fst (run_tasks env session rs st)) = length rs"
  by (induction rs arbitrary: st) (simp_all add: split_beta)


lemma completion_order_mset: "mset (completion_order sch xs) = mset xs"
proof (induction sch xs rule: completion_order.induct)
  case (3 k ks x xs)
  let ?l = "x # xs" and ?i = "k mod length (x # xs)"
  have i: "?i < length ?l" by simp
  have "mset (completion_order (k # ks) ?l) = add_mset (?l ! ?i) (mset (take ?i ?l @ drop (Suc ?i) ?l))"
    using 3 by (simp add: Let_def)
  also have "\<dots> = mset (take ?i ?l @ ?l ! ?i # drop (Suc ?i) ?l)" by simp
  also have "\<dots> = mset ?l" using id_take_nth_drop[OF i] by simp
  finally show ?case .
qed simp_all

lemma completion_order_length: "length (completion_order sch xs) = length xs"
  by (metis completion_order_mset size_mset)

lemma completion_order_map: "map f (completion_order sch xs) = completion_order sch (map f xs)"
proof (induction sch xs rule: completion_order.induct)
  case (3 k ks x xs)
  let ?l = "x # xs" and ?i = "k mod length (x # xs)"
  have i: "?i < length ?l" by simp
  have "completion_order (k # ks) (map f ?l) =
          map f ?l ! ?i # completion_order ks (take ?i (map f ?l) @ drop (Suc ?i) (map f ?l))"
    by (simp add: Let_def)
  also have "map f ?l ! ?i = f (?l ! ?i)" using i by (rule nth_map)
  also have "take ?i (map f ?l) @ drop (Suc ?i) (map f ?l) = map f (take ?i ?l @ drop (Suc ?i) ?l)"
    by (simp only: take_map drop_map map_append)
  finally show ?case using 3 by (simp add: Let_def)
qed simp_all


lemma serialise_finite: "all_finite v \<Longrightarrow> serialise v = v"
proof (induction v)
  case (JArr xs)
  then show ?case by (simp add: list_all_iff map_idI)
next
  case (JObj kvs)
  have "map (map_prod id serialise) kvs = kvs"
  proof (rule map_idI)
    fix kv assume kv: "kv \<in> set kvs"
    obtain k v where e: "kv = (k, v)" by (cases kv)
    have "v \<in> Basic_BNFs.snds kv" by (simp add: e)
    moreover have "all_finite v" using JObj.prems kv by (auto simp: e list_all_iff)
    ultimately have "serialise v = v" using JObj.IH[OF kv] by blast
    then show "map_prod id serialise kv = kv" by (simp add: e)
  qed
  then show ?case by simp
qed simp_all

lemma sendSseMessage_id: "frame_id (sendSseMessage f) = map_option serialise (frame_id f)"
  by (cases f) simp_all

section \<open>The POST handler: paths\<close>

lemma demo_accept: "enforceAcceptHeader (demo_request h b) = Inr ()"
  by (simp add: enforceAcceptHeader_def demo_request_def toLowerCase_def)

lemma demo_content: "enforceJsonContent (demo_request h b) = Inr ()"
  by (simp add: enforceJsonContent_def demo_request_def)

lemma demo_body: "normalizeMessages env (body (demo_request h (JArr xs))) = Inr xs"
  by (simp add: normalizeMessages_def demo_request_def)

lemma demo_header:
  "headerSessionId (demo_request None b) = None"
  "headerSessionId (demo_request (Some (c # cs)) b) = Some (c # cs)"
  by (simp_all add: headerSessionId_def demo_request_def)

lemma handleHttpError_Plain: "\<exists>status message. handleHttpError e = Plain status message"
  by (cases e) (simp_all add: handleHttpError_def)

lemma post_mcp_messages:
  assumes "enforceAcceptHeader req = Inr ()" and "enforceJsonContent req = Inr ()"
    and "normalizeMessages env (body req) = Inr messages" and "messages \<noteq> []"
  shows "post_mcp env sch req st =
           (case post_messages env sch (headerSessionId req) messages st of
              (Inl e, st1) \<Rightarrow> (handleHttpError e, st1)
            | (Inr r, st1) \<Rightarrow> (r, st1))"
  by (simp add: post_mcp_def post_try_def assms)

lemma post_mcp_Stream:
  assumes "post_mcp env sch req st = (Stream h frames, st')"
    and "normalizeMessages env (body req) = Inr messages"
  shows "post_messages env sch (headerSessionId req) messages st = (Inr (Stream h frames), st')"
proof -
  obtain r st1 where t: "post_try env sch req st = (r, st1)" by (cases "post_try env sch req st")
  show ?thesis
  proof (cases r)
    case (Inl e)
    with t assms(1) handleHttpError_Plain[of e] show ?thesis
      by (auto simp: post_mcp_def)
  next
    case (Inr res)
    with t assms(1) have res: "res = Stream h frames" "st1 = st'"
      by (simp_all add: post_mcp_def)
    from t Inr res assms(2) show ?thesis
      by (simp add: post_try_def split: sum.splits if_splits)
  qed
qed

lemma post_messages_Stream:
  assumes "post_messages env sch hdr messages st = (Inr (Stream h frames), st')"
    and "partitionMessages messages = Inr (requests, notifications, responses)"
  shows "\<exists>session st1. frames
           = map (sendSseMessage \<circ> fst) (completion_order sch (fst (run_tasks env session requests st1)))"
proof -
  obtain pn st1 where pn: "processNotifications env hdr notifications st = (pn, st1)"
    by (cases "processNotifications env hdr notifications st")
  obtain outs st2 where rt: "\<And>session. run_tasks env session requests st1
        = (fst (run_tasks env session requests st1), snd (run_tasks env session requests st1))"
    by simp
  from assms(1) show ?thesis
    unfolding post_messages_def assms(2) pn
    by (auto simp: Let_def split_beta split: sum.splits if_splits)
qed


lemma post_messages_notification_error:
  assumes "partitionMessages messages = Inr (requests, notifications, responses)"
    and "processNotifications env hdr notifications st = (Inl e, st1)"
  shows "post_messages env sch hdr messages st = (Inl e, st1)"
  by (simp add: post_messages_def assms)

lemma post_messages_after_notifications:
  assumes "partitionMessages messages = Inr (requests, notifications, responses)"
    and "processNotifications env hdr notifications st = (Inr (), st1)"
  shows "post_messages env sch hdr messages st =
     (if requests = [] then (Inr (Plain 202 None), st1)
      else if list_ex (\<lambda>r. get r ''method'' = Some (JStr ''initialize'')) requests
              \<and> length requests > 1
      then (Inl (HttpError 400 ''Initialize request must be sent separately.''), st1)
      else (case bind_session st1 hdr requests of
              Inl e \<Rightarrow> (Inl e, st1)
            | Inr session \<Rightarrow>
                (Inr (Stream
                   (session_header (completion_order sch (fst (run_tasks env session requests st1))))
                   (map (sendSseMessage \<circ> fst)
                      (completion_order sch (fst (run_tasks env session requests st1))))),
                 snd (run_tasks env session requests st1))))"
proof -
  have "post_messages env sch hdr messages st =
     (if requests = [] then (Inr (Plain 202 None), st1)
      else if list_ex (\<lambda>r. get r ''method'' = Some (JStr ''initialize'')) requests
              \<and> length requests > 1
      then (Inl (HttpError 400 ''Initialize request must be sent separately.''), st1)
      else (case bind_session st1 hdr requests of
              Inl e \<Rightarrow> (Inl e, st1)
            | Inr session \<Rightarrow>
                (let (outs, st2) = run_tasks env session requests st1;
                     written = completion_order sch outs
                 in (Inr (Stream (session_header written)
                            (map (sendSseMessage \<circ> fst) written)), st2))))"
    by (simp add: post_messages_def assms)
  then show ?thesis
    by (simp add: Let_def split_beta split: sum.splits)
qed

lemma processNotifications_none: "processNotifications env hdr [] st = (Inr (), st)"
  by (simp add: processNotifications_def)

lemma processNotifications_missing:
  "notifications \<noteq> [] \<Longrightarrow>
   processNotifications env None notifications st
     = (Inl (HttpError 400 ''Missing Mcp-Session-Id header''), st)"
  by (simp add: processNotifications_def requireSessionHeader_def)

lemma processNotifications_unknown:
  "notifications \<noteq> [] \<Longrightarrow> k \<noteq> [] \<Longrightarrow> map_of (sessions st) k = None \<Longrightarrow>
   processNotifications env (Some k) notifications st
     = (Inl (HttpError 404 ''Session not found''), st)"
  by (simp add: processNotifications_def requireSessionHeader_def loadSession_def)

lemma processNotifications_live:
  "k \<noteq> [] \<Longrightarrow> map_of (sessions st) k = Some s \<Longrightarrow>
   processNotifications env (Some k) notifications st
     = (Inr (), notification_loop env k notifications st)"
  by (cases notifications) (simp_all add: processNotifications_def requireSessionHeader_def loadSession_def)

lemma demo_methods:
  "get (ping_request i) ''method'' = Some (JStr ''ping'')"
  "get (initialize_request i) ''method'' = Some (JStr ''initialize'')"
  "get (tool_request i name) ''method'' = Some (JStr ''tools/call'')"
  "get initialized_notification ''method'' = Some (JStr ''initialized'')"
  by (simp_all add: ping_request_def initialize_request_def tool_request_def
        initialized_notification_def)

lemma demo_ids:
  "get (ping_request i) ''id'' = Some (JNum i)"
  "get (initialize_request i) ''id'' = Some (JNum i)"
  "get (tool_request i name) ''id'' = Some (JNum i)"
  by (simp_all add: ping_request_def initialize_request_def tool_request_def)

lemma demo_not_null:
  "ping_request i \<noteq> JNull" "initialize_request i \<noteq> JNull" "tool_request i name \<noteq> JNull"
  "initialized_notification \<noteq> JNull"
  by (simp_all add: ping_request_def initialize_request_def tool_request_def
        initialized_notification_def)

lemma demo_kinds:
  "is_Request (ping_request i)" "is_Request (initialize_request i)" "is_Request (tool_request i name)"
  "is_Notification initialized_notification"
  by (simp_all add: is_Request_def is_Notification_def ping_request_def initialize_request_def
        tool_request_def initialized_notification_def)

lemma demo_kinds_not:
  "\<not> is_Notification (ping_request i)" "\<not> is_Notification (initialize_request i)"
  "\<not> is_Notification (tool_request i name)"
  "\<not> is_Response (ping_request i)" "\<not> is_Response (initialize_request i)"
  "\<not> is_Response (tool_request i name)"
  "\<not> is_Request initialized_notification" "\<not> is_Response initialized_notification"
  using exactly_one_kind demo_kinds by blast+

lemma partition_by_kind:
  "JNull \<notin> set ms \<Longrightarrow>
   partitionMessages ms = Inr (filter is_Request ms, filter is_Notification ms, filter is_Response ms)"
  using partition_loop_filter[of ms "[]" "[]" "[]"] by (simp add: partitionMessages_def)


lemma post_mcp_result:
  assumes "enforceAcceptHeader req = Inr ()" and "enforceJsonContent req = Inr ()"
    and "normalizeMessages env (body req) = Inr messages" and "messages \<noteq> []"
    and "post_messages env sch (headerSessionId req) messages st = (Inr r, st1)"
  shows "post_mcp env sch req st = (r, st1)"
  by (simp add: post_mcp_messages[OF assms(1-4)] assms(5))

lemma post_mcp_error:
  assumes "enforceAcceptHeader req = Inr ()" and "enforceJsonContent req = Inr ()"
    and "normalizeMessages env (body req) = Inr messages" and "messages \<noteq> []"
    and "post_messages env sch (headerSessionId req) messages st = (Inl e, st1)"
  shows "post_mcp env sch req st = (handleHttpError e, st1)"
  by (simp add: post_mcp_messages[OF assms(1-4)] assms(5))

section \<open>Correlation of frames and Requests\<close>

lemma run_tasks_ids:
  "map (\<lambda>out. frame_id (fst out)) (fst (run_tasks env session rs st)) = map (\<lambda>r. get r ''id'') rs"
proof (induction rs arbitrary: st)
  case Nil
  then show ?case by simp
next
  case (Cons r rs)
  show ?case
    by (simp only: run_tasks_Cons fst_conv list.map Cons.IH task_frame_id)
qed

text \<open>
  Claim C6, as amended. When the handler answers with an event stream, the stream
  holds exactly one frame per Request of the batch, and the identifiers of the
  frames, in the order written, are the identifiers of the Requests in their order
  of completion, each as \<open>JSON.stringify\<close> writes it, for every schedule. An
  identifier without a number beyond the range of the doubles is written as it is, so
  when no identifier of the batch holds such a number every frame carries exactly the
  identifier of the Request it answers; an identifier decoded as \<open>Infinity\<close> or
  \<open>-Infinity\<close> is written as \<open>null\<close>.
\<close>

theorem frames_correlate:
  assumes "post_mcp env schedule req st = (Stream h frames, st')"
    and "normalizeMessages env (body req) = Inr messages"
    and "partitionMessages messages = Inr (requests, notifications, responses)"
  shows "length frames = length requests
       \<and> map frame_id frames
           = map (\<lambda>r. map_option serialise (get r ''id'')) (completion_order schedule requests)
       \<and> mset (map frame_id frames)
           = mset (map (\<lambda>r. map_option serialise (get r ''id'')) requests)
       \<and> ((\<forall>r \<in> set requests. \<forall>i. get r ''id'' = Some i \<longrightarrow> all_finite i) \<longrightarrow>
             map frame_id frames = map (\<lambda>r. get r ''id'') (completion_order schedule requests)
             \<and> mset (map frame_id frames) = mset (map (\<lambda>r. get r ''id'') requests))"
proof -
  from post_messages_Stream[OF post_mcp_Stream[OF assms(1,2)] assms(3)]
  obtain session st1 where
    fr: "frames = map (sendSseMessage \<circ> fst)
                   (completion_order schedule (fst (run_tasks env session requests st1)))"
    by blast
  let ?outs = "fst (run_tasks env session requests st1)"
  let ?written = "\<lambda>r. map_option serialise (get r ''id'')"
  have len: "length frames = length requests"
    by (simp add: fr completion_order_length run_tasks_length)
  have "map frame_id frames
          = map (map_option serialise)
              (completion_order schedule (map (\<lambda>out. frame_id (fst out)) ?outs))"
    by (simp add: fr completion_order_map[symmetric] comp_def sendSseMessage_id)
  also have "\<dots> = map (map_option serialise)
                      (map (\<lambda>r. get r ''id'') (completion_order schedule requests))"
    by (simp only: run_tasks_ids completion_order_map)
  finally have ids: "map frame_id frames = map ?written (completion_order schedule requests)"
    by (simp add: comp_def)
  have ms: "mset (map frame_id frames) = mset (map ?written requests)"
    unfolding ids by (simp only: mset_map completion_order_mset)
  have same: "map ?written rs = map (\<lambda>r. get r ''id'') rs"
    if "\<forall>r \<in> set rs. \<forall>i. get r ''id'' = Some i \<longrightarrow> all_finite i" for rs
  proof (rule map_cong[OF refl])
    fix r assume "r \<in> set rs"
    with that show "map_option serialise (get r ''id'') = get r ''id''"
      by (cases "get r ''id''") (simp_all add: serialise_finite)
  qed
  have fin: "map frame_id frames = map (\<lambda>r. get r ''id'') (completion_order schedule requests)
             \<and> mset (map frame_id frames) = mset (map (\<lambda>r. get r ''id'') requests)"
    if f: "\<forall>r \<in> set requests. \<forall>i. get r ''id'' = Some i \<longrightarrow> all_finite i"
  proof -
    have "set (completion_order schedule requests) = set requests"
      by (metis completion_order_mset set_mset_mset)
    with f have "\<forall>r \<in> set (completion_order schedule requests).
                   \<forall>i. get r ''id'' = Some i \<longrightarrow> all_finite i" by simp
    from same[OF this] have a: "map ?written (completion_order schedule requests)
                                  = map (\<lambda>r. get r ''id'') (completion_order schedule requests)" .
    from same[OF f] have b: "map ?written requests = map (\<lambda>r. get r ''id'') requests" .
    from ids ms show ?thesis by (simp only: a b)
  qed
  from fin have fin': "(\<forall>r \<in> set requests. \<forall>i. get r ''id'' = Some i \<longrightarrow> all_finite i) \<longrightarrow>
             map frame_id frames = map (\<lambda>r. get r ''id'') (completion_order schedule requests)
             \<and> mset (map frame_id frames) = mset (map (\<lambda>r. get r ''id'') requests)"
    by (rule impI)
  from len ids ms fin' show ?thesis by (intro conjI)
qed

lemma bind_session_required:
  assumes "list_ex (\<lambda>r. get r ''method'' \<noteq> Some (JStr ''initialize'')) requests"
  shows "bind_session st hdr requests =
           (case requireSessionHeader hdr of
              Inl e \<Rightarrow> Inl e
            | Inr k \<Rightarrow> (case loadSession st k of Inl e \<Rightarrow> Inl e | Inr s \<Rightarrow> Inr (Some k)))"
  using assms by (simp add: bind_session_def)

lemma demo_load: "loadSession demo_server ''s1'' = Inr demo_session"
  by (simp add: loadSession_def demo_server_def)

lemma demo_partition: "partitionMessages demo_batch = Inr (demo_batch, [], [])"
  by (simp add: partition_by_kind demo_batch_def demo_not_null demo_not_null[symmetric] demo_kinds demo_kinds_not)

lemma demo_bind: "bind_session demo_server (Some ''s1'') demo_batch = Inr (Some ''s1'')"
  by (simp add: bind_session_required demo_batch_def demo_methods requireSessionHeader_def demo_load)

lemma demo_outs:
  "fst (run_tasks demo_env (Some ''s1'') demo_batch demo_server)
     = [(ResultFrame (Some (JNum 1)) (JObj [(''content'', JArr [])]), None),
        (ResultFrame (Some (JNum 2)) (JObj []), None), (ResultFrame (Some (JNum 3)) (JObj []), None)]"
  by (simp add: demo_batch_def task_cases handleRpcRequest_def tool_request_def ping_request_def
        ensureSession_def callTool_def demo_env_def split_beta Let_def)

lemma demo_order: "completion_order [Suc 0, Suc 0] [a, b, c] = [b, c, a]"
  by (simp add: Let_def)

lemma demo_no_initialize:
  "\<not> list_ex (\<lambda>r. get r ''method'' = Some (JStr ''initialize'')) demo_batch" "demo_batch \<noteq> []"
  by (simp_all add: demo_batch_def demo_methods)

lemma demo_post_messages:
  "post_messages demo_env [Suc 0, Suc 0] (Some ''s1'') demo_batch demo_server
     = (Inr (Stream None
         [ResultFrame (Some (JNum 2)) (JObj []), ResultFrame (Some (JNum 3)) (JObj []),
          ResultFrame (Some (JNum 1)) (JObj [(''content'', JArr [])])]),
        snd (run_tasks demo_env (Some ''s1'') demo_batch demo_server))"
  by (simp add: post_messages_after_notifications[OF demo_partition processNotifications_none]
        demo_no_initialize demo_bind demo_outs demo_order)

lemma demo_post_mcp:
  "post_mcp demo_env [Suc 0, Suc 0] (demo_request (Some ''s1'') (JArr demo_batch)) demo_server
     = (Stream None
         [ResultFrame (Some (JNum 2)) (JObj []), ResultFrame (Some (JNum 3)) (JObj []),
          ResultFrame (Some (JNum 1)) (JObj [(''content'', JArr [])])],
        snd (run_tasks demo_env (Some ''s1'') demo_batch demo_server))"
  by (rule post_mcp_result[OF demo_accept demo_content demo_body demo_no_initialize(2)])
     (simp add: demo_header demo_post_messages)

theorem frames_correlate_witness:
  "post_mcp demo_env [Suc 0, Suc 0] (demo_request (Some ''s1'') (JArr demo_batch)) demo_server
     = (Stream None
         [ResultFrame (Some (JNum 2)) (JObj []), ResultFrame (Some (JNum 3)) (JObj []),
          ResultFrame (Some (JNum 1)) (JObj [(''content'', JArr [])])],
        snd (post_mcp demo_env [Suc 0, Suc 0] (demo_request (Some ''s1'') (JArr demo_batch)) demo_server))
   \<and> normalizeMessages demo_env (body (demo_request (Some ''s1'') (JArr demo_batch))) = Inr demo_batch
   \<and> partitionMessages demo_batch = Inr (demo_batch, [], [])
   \<and> map (\<lambda>r. get r ''id'') demo_batch = [Some (JNum 1), Some (JNum 2), Some (JNum 3)]
   \<and> all_finite (JNum 1) \<and> all_finite (JNum 2) \<and> all_finite (JNum 3)
   \<and> map frame_id
         [ResultFrame (Some (JNum 2)) (JObj []), ResultFrame (Some (JNum 3)) (JObj []),
          ResultFrame (Some (JNum 1)) (JObj [(''content'', JArr [])])]
       = map (\<lambda>r. get r ''id'') (completion_order [Suc 0, Suc 0] demo_batch)
   \<and> map (\<lambda>r. get r ''id'') (completion_order [Suc 0, Suc 0] demo_batch)
       = [Some (JNum 2), Some (JNum 3), Some (JNum 1)]"
proof -
  have h1: "post_mcp demo_env [Suc 0, Suc 0] (demo_request (Some ''s1'') (JArr demo_batch)) demo_server
     = (Stream None
         [ResultFrame (Some (JNum 2)) (JObj []), ResultFrame (Some (JNum 3)) (JObj []),
          ResultFrame (Some (JNum 1)) (JObj [(''content'', JArr [])])],
        snd (post_mcp demo_env [Suc 0, Suc 0] (demo_request (Some ''s1'') (JArr demo_batch)) demo_server))"
    by (simp add: demo_post_mcp)
  have h2: "normalizeMessages demo_env (body (demo_request (Some ''s1'') (JArr demo_batch)))
              = Inr demo_batch"
    by (rule demo_body)
  have fin: "\<forall>r \<in> set demo_batch. \<forall>i. get r ''id'' = Some i \<longrightarrow> all_finite i"
    by (auto simp: demo_batch_def demo_ids)
  have ids: "map (\<lambda>r. get r ''id'') (completion_order [Suc 0, Suc 0] demo_batch)
       = [Some (JNum 2), Some (JNum 3), Some (JNum 1)]"
    by (simp add: demo_batch_def demo_order demo_ids)
  from frames_correlate[OF h1 h2 demo_partition] fin
  have "map frame_id
         [ResultFrame (Some (JNum 2)) (JObj []), ResultFrame (Some (JNum 3)) (JObj []),
          ResultFrame (Some (JNum 1)) (JObj [(''content'', JArr [])])]
       = map (\<lambda>r. get r ''id'') (completion_order [Suc 0, Suc 0] demo_batch)"
    by blast
  moreover have "map (\<lambda>r. get r ''id'') demo_batch = [Some (JNum 1), Some (JNum 2), Some (JNum 3)]"
    by (simp add: demo_batch_def demo_ids)
  moreover have "all_finite (JNum 1)" "all_finite (JNum 2)" "all_finite (JNum 3)"
    by simp_all
  ultimately show ?thesis using h1 h2 demo_partition ids by (intro conjI)
qed

text \<open>
  The claim C6 as stated fails: the ping with the identifier \<open>1e400\<close>, decoded as
  \<open>Infinity\<close>, is answered by a frame whose identifier is \<open>null\<close>.
\<close>

theorem frames_correlate_counterexample:
  "partitionMessages [overflow_request] = Inr ([overflow_request], [], [])
   \<and> get overflow_request ''id'' = Some JInfinity
   \<and> post_mcp demo_env [] (demo_request (Some ''s1'') (JArr [overflow_request])) demo_server
       = (Stream None [ResultFrame (Some JNull) (JObj [])],
          snd (run_tasks demo_env (Some ''s1'') [overflow_request] demo_server))
   \<and> frame_id (ResultFrame (Some JNull) (JObj [])) \<noteq> get overflow_request ''id''"
proof -
  have p: "partitionMessages [overflow_request] = Inr ([overflow_request], [], [])"
    by (simp add: partitionMessages_def overflow_request_def)
  have i: "get overflow_request ''id'' = Some JInfinity"
    and m: "get overflow_request ''method'' = Some (JStr ''ping'')"
    by (simp_all add: overflow_request_def)
  have b: "bind_session demo_server (Some ''s1'') [overflow_request] = Inr (Some ''s1'')"
    by (simp add: bind_session_def m requireSessionHeader_def demo_load)
  have o: "fst (run_tasks demo_env (Some ''s1'') [overflow_request] demo_server)
             = [(ResultFrame (Some JInfinity) (JObj []), None)]"
    by (simp add: task_cases handleRpcRequest_def m i ensureSession_def split_beta)
  have "post_messages demo_env [] (Some ''s1'') [overflow_request] demo_server
          = (Inr (Stream None [ResultFrame (Some JNull) (JObj [])]),
             snd (run_tasks demo_env (Some ''s1'') [overflow_request] demo_server))"
    by (simp add: post_messages_after_notifications[OF p processNotifications_none] m b o
          del: run_tasks.simps)
  then have "post_mcp demo_env [] (demo_request (Some ''s1'') (JArr [overflow_request])) demo_server
       = (Stream None [ResultFrame (Some JNull) (JObj [])],
          snd (run_tasks demo_env (Some ''s1'') [overflow_request] demo_server))"
    by (intro post_mcp_result[OF demo_accept demo_content demo_body]) (simp_all add: demo_header)
  with p i show ?thesis by simp
qed

lemma headerSessionId_Some: "headerSessionId req = Some k \<Longrightarrow> k \<noteq> []"
  by (auto simp: headerSessionId_def split: option.splits if_splits)

lemma partition_empty: "partitionMessages [] = Inr ([], [], [])"
  by (simp add: partitionMessages_def)

lemma partition_nonempty:
  "partitionMessages messages = Inr (requests, notifications, responses) \<Longrightarrow>
   requests \<noteq> [] \<or> notifications \<noteq> [] \<Longrightarrow> messages \<noteq> []"
  using partition_empty by auto

section \<open>A Request whose dispatch fails\<close>












section \<open>Notifications and the session\<close>

lemma notification_step_frame:
  "uuids_made (notification_step env k n st) = uuids_made st"
  "tool_calls (notification_step env k n st) = tool_calls st"
  "map fst (sessions (notification_step env k n st)) = map fst (sessions st)"
  by (simp_all add: notification_step_def Let_def touchSession_sessions keys_mutate)

lemma notification_loop_frame:
  "uuids_made (notification_loop env k ns st) = uuids_made st
   \<and> tool_calls (notification_loop env k ns st) = tool_calls st
   \<and> map fst (sessions (notification_loop env k ns st)) = map fst (sessions st)"
  by (induction ns arbitrary: st) (simp_all add: notification_step_frame)

lemma notification_step_session:
  assumes "map_of (sessions st) k = Some s"
  shows "\<exists>s'. map_of (sessions (notification_step env k n st)) k = Some s'
           \<and> id_field s' = id_field s \<and> createdAt s' = createdAt s
           \<and> (initialized s \<longrightarrow> initialized s')
           \<and> (get n ''method'' = Some (JStr ''initialized'') \<longrightarrow>
                 initialized s' \<and> refreshed env st (notification_step env k n st) s')
           \<and> clock_reads st \<le> clock_reads (notification_step env k n st)
           \<and> (lastActivity s' = lastActivity s \<or> refreshed env st (notification_step env k n st) s')"
proof -
  let ?m = "get n ''method''"
  consider (a) "?m = Some (JStr ''initialized'')"
    | (b) "?m \<noteq> Some (JStr ''initialized'')"
          "?m = Some (JStr ''notifications/cancelled'') \<or> ?m = Some (JStr ''notifications/progress'')"
    | (c) "?m \<noteq> Some (JStr ''initialized'')"
          "\<not> (?m = Some (JStr ''notifications/cancelled'') \<or> ?m = Some (JStr ''notifications/progress''))"
    by blast
  then show ?thesis
  proof cases
    case a
    have "refreshed env st (notification_step env k n st)
            (s\<lparr>initialized := True, lastActivity := now_at env (clock_reads st)\<rparr>)"
      unfolding refreshed_def
      by (rule bexI[of _ "clock_reads st"]) (simp_all add: notification_step_def a touchSession_sessions)
    then show ?thesis
      using assms
      by (intro exI[of _ "s\<lparr>initialized := True, lastActivity := now_at env (clock_reads st)\<rparr>"])
         (simp add: notification_step_def a touchSession_sessions map_of_mutate)
  next
    case b
    have "refreshed env st (notification_step env k n st)
            (s\<lparr>lastActivity := now_at env (clock_reads st)\<rparr>)"
      unfolding refreshed_def
      by (rule bexI[of _ "clock_reads st"]) (use b in \<open>auto simp: notification_step_def touchSession_sessions\<close>)
    then show ?thesis
      using assms b
      by (intro exI[of _ "s\<lparr>lastActivity := now_at env (clock_reads st)\<rparr>"])
         (auto simp: notification_step_def touchSession_sessions map_of_mutate)
  next
    case c
    then have "notification_step env k n st = st"
      by (simp add: notification_step_def)
    then show ?thesis using assms c by (intro exI[of _ s]) simp
  qed
qed

lemma refreshed_mono:
  "refreshed env st1 st2 s \<Longrightarrow> clock_reads st0 \<le> clock_reads st1 \<Longrightarrow> clock_reads st2 \<le> clock_reads st3
   \<Longrightarrow> refreshed env st0 st3 s"
  unfolding refreshed_def by (auto intro: le_trans less_le_trans)


lemma notification_loop_session:
  assumes "map_of (sessions st) k = Some s"
  shows "\<exists>s'. map_of (sessions (notification_loop env k ns st)) k = Some s'
           \<and> id_field s' = id_field s \<and> createdAt s' = createdAt s
           \<and> (initialized s \<longrightarrow> initialized s')
           \<and> ((\<exists>n \<in> set ns. get n ''method'' = Some (JStr ''initialized'')) \<longrightarrow>
                 initialized s' \<and> refreshed env st (notification_loop env k ns st) s')
           \<and> clock_reads st \<le> clock_reads (notification_loop env k ns st)
           \<and> (lastActivity s' = lastActivity s \<or> refreshed env st (notification_loop env k ns st) s')"
  using assms
proof (induction ns arbitrary: st s)
  case Nil
  then show ?case by simp
next
  case (Cons n ns)
  let ?st1 = "notification_step env k n st"
  let ?st2 = "notification_loop env k ns ?st1"
  from notification_step_session[OF Cons.prems, of env n]
  obtain s1 where s1: "map_of (sessions ?st1) k = Some s1"
    and id1: "id_field s1 = id_field s" "createdAt s1 = createdAt s"
    and in1: "initialized s \<longrightarrow> initialized s1"
    and init1: "get n ''method'' = Some (JStr ''initialized'') \<longrightarrow>
                 initialized s1 \<and> refreshed env st ?st1 s1"
    and c1: "clock_reads st \<le> clock_reads ?st1"
    and la1: "lastActivity s1 = lastActivity s \<or> refreshed env st ?st1 s1"
    by blast
  from Cons.IH[OF s1]
  obtain s2 where s2: "map_of (sessions ?st2) k = Some s2"
    and id2: "id_field s2 = id_field s1" "createdAt s2 = createdAt s1"
    and in2: "initialized s1 \<longrightarrow> initialized s2"
    and init2: "(\<exists>n \<in> set ns. get n ''method'' = Some (JStr ''initialized'')) \<longrightarrow>
                 initialized s2 \<and> refreshed env ?st1 ?st2 s2"
    and c2: "clock_reads ?st1 \<le> clock_reads ?st2"
    and la2: "lastActivity s2 = lastActivity s1 \<or> refreshed env ?st1 ?st2 s2"
    by blast
  have up: "refreshed env ?st1 ?st2 s2 \<Longrightarrow> refreshed env st ?st2 s2"
    using c1 unfolding refreshed_def by (auto intro: le_trans)
  have keep: "refreshed env st ?st1 s1 \<Longrightarrow> lastActivity s2 = lastActivity s1 \<Longrightarrow> refreshed env st ?st2 s2"
    using c2 unfolding refreshed_def by (auto intro: less_le_trans)
  have la: "lastActivity s2 = lastActivity s \<or> refreshed env st ?st2 s2"
    using la1 la2 up keep by metis
  have init: "(\<exists>m \<in> set (n # ns). get m ''method'' = Some (JStr ''initialized'')) \<longrightarrow>
                 initialized s2 \<and> refreshed env st ?st2 s2"
  proof
    assume "\<exists>m \<in> set (n # ns). get m ''method'' = Some (JStr ''initialized'')"
    then consider (here) "get n ''method'' = Some (JStr ''initialized'')"
      | (later) "\<exists>m \<in> set ns. get m ''method'' = Some (JStr ''initialized'')" by auto
    then show "initialized s2 \<and> refreshed env st ?st2 s2"
    proof cases
      case here
      with init1 have "initialized s1" "refreshed env st ?st1 s1" by simp_all
      with in2 la2 up keep show ?thesis by metis
    next
      case later
      with init2 up show ?thesis by blast
    qed
  qed
  have "clock_reads st \<le> clock_reads ?st2" using c1 c2 by simp
  with s2 id1 id2 in1 in2 la init show ?case
    by (intro exI[of _ s2]) simp
qed

text \<open>
  Claim C8. For a batch with notifications and no Request, sent with a non-empty
  session identifier \<open>k\<close>: if \<open>k\<close> is the key of a live session, the answer is an empty
  202 (a plain response, no stream) and the state is the one the notifications leave;
  if one of them is \<open>initialized\<close>, the session of \<open>k\<close> is afterwards initialized and
  its last activity is a clock reading taken during this call, its identifier and
  creation time unchanged. If \<open>k\<close> is not the key of a live session, the answer is 404
  "Session not found" and the state is unchanged.
\<close>

theorem notifications_only:
  assumes "enforceAcceptHeader req = Inr ()" and "enforceJsonContent req = Inr ()"
    and "normalizeMessages env (body req) = Inr messages"
    and "partitionMessages messages = Inr ([], notifications, responses)"
    and "notifications \<noteq> []"
    and "headerSessionId req = Some k"
  shows "(map_of (sessions st) k = None \<longrightarrow>
            post_mcp env sch req st = (Plain 404 (Some ''Session not found''), st))
       \<and> (\<forall>s. map_of (sessions st) k = Some s \<longrightarrow>
            post_mcp env sch req st = (Plain 202 None, notification_loop env k notifications st)
            \<and> ((\<exists>n \<in> set notifications. get n ''method'' = Some (JStr ''initialized'')) \<longrightarrow>
                 (\<exists>s'. map_of (sessions (snd (post_mcp env sch req st))) k = Some s'
                       \<and> initialized s'
                       \<and> refreshed env st (snd (post_mcp env sch req st)) s'
                       \<and> id_field s' = id_field s \<and> createdAt s' = createdAt s)))"
proof -
  have k: "k \<noteq> []" using assms(6) by (rule headerSessionId_Some)
  have ne: "messages \<noteq> []" using partition_nonempty[OF assms(4)] assms(5) by simp
  note run = post_mcp_result[OF assms(1-3) ne] post_mcp_error[OF assms(1-3) ne]
  have unknown: "post_mcp env sch req st = (Plain 404 (Some ''Session not found''), st)"
    if "map_of (sessions st) k = None"
  proof -
    have "post_messages env sch (headerSessionId req) messages st
            = (Inl (HttpError 404 ''Session not found''), st)"
      unfolding assms(6)
      by (rule post_messages_notification_error[OF assms(4)
                 processNotifications_unknown[OF assms(5) k that]])
    from run(2)[OF this] show ?thesis by (simp add: handleHttpError_def)
  qed
  have live: "post_mcp env sch req st = (Plain 202 None, notification_loop env k notifications st)"
    if "map_of (sessions st) k = Some s" for s
  proof -
    have "post_messages env sch (headerSessionId req) messages st
            = (Inr (Plain 202 None), notification_loop env k notifications st)"
      unfolding assms(6)
      by (simp add: post_messages_after_notifications[OF assms(4) processNotifications_live[OF k that]])
    from run(1)[OF this] show ?thesis .
  qed
  have after: "\<exists>s'. map_of (sessions (snd (post_mcp env sch req st))) k = Some s'
                       \<and> initialized s'
                       \<and> refreshed env st (snd (post_mcp env sch req st)) s'
                       \<and> id_field s' = id_field s \<and> createdAt s' = createdAt s"
    if "map_of (sessions st) k = Some s"
      and "\<exists>n \<in> set notifications. get n ''method'' = Some (JStr ''initialized'')" for s
    using notification_loop_session[OF that(1), of env notifications] that(2)
    unfolding live[OF that(1)] snd_conv by blast
  from unknown live after show ?thesis by blast
qed

lemma demo_notification_partition:
  "partitionMessages [initialized_notification] = Inr ([], [initialized_notification], [])"
  by (simp add: partition_by_kind demo_not_null demo_not_null[symmetric] demo_kinds demo_kinds_not)

lemma demo_store:
  "map_of (sessions demo_server) ''s1'' = Some demo_session"
  "map_of (sessions demo_server) ''ghost'' = None"
  by (simp_all add: demo_server_def)

lemma demo_notified:
  "notification_loop demo_env ''s1'' [initialized_notification] demo_server
     = \<lparr>sessions = [(''s1'', \<lparr>id_field = ''s1'', createdAt = 0, lastActivity = 1800000,
                               initialized = True\<rparr>)],
        clock_reads = Suc 0, uuids_made = 0, tool_calls = 0\<rparr>"
  by (simp add: notification_step_def demo_methods touchSession_def Date_now_def
        demo_server_def demo_session_def demo_env_def)

theorem notifications_only_witness:
  "enforceAcceptHeader (demo_request (Some ''s1'') (JArr [initialized_notification])) = Inr ()
   \<and> enforceJsonContent (demo_request (Some ''s1'') (JArr [initialized_notification])) = Inr ()
   \<and> normalizeMessages demo_env (body (demo_request (Some ''s1'') (JArr [initialized_notification])))
       = Inr [initialized_notification]
   \<and> partitionMessages [initialized_notification] = Inr ([], [initialized_notification], [])
   \<and> headerSessionId (demo_request (Some ''s1'') (JArr [initialized_notification])) = Some ''s1''
   \<and> map_of (sessions demo_server) ''s1'' = Some demo_session
   \<and> post_mcp demo_env [] (demo_request (Some ''s1'') (JArr [initialized_notification])) demo_server
       = (Plain 202 None,
          \<lparr>sessions = [(''s1'', \<lparr>id_field = ''s1'', createdAt = 0, lastActivity = 1800000,
                                    initialized = True\<rparr>)],
           clock_reads = Suc 0, uuids_made = 0, tool_calls = 0\<rparr>)
   \<and> headerSessionId (demo_request (Some ''ghost'') (JArr [initialized_notification])) = Some ''ghost''
   \<and> map_of (sessions demo_server) ''ghost'' = None
   \<and> post_mcp demo_env [] (demo_request (Some ''ghost'') (JArr [initialized_notification])) demo_server
       = (Plain 404 (Some ''Session not found''), demo_server)"
proof -
  have ne: "[initialized_notification] \<noteq> []" by simp
  have h1: "headerSessionId (demo_request (Some ''s1'') (JArr [initialized_notification])) = Some ''s1''"
    and h2: "headerSessionId (demo_request (Some ''ghost'') (JArr [initialized_notification])) = Some ''ghost''"
    by (simp_all add: demo_header)
  from notifications_only[where env = demo_env and st = demo_server and sch = "[]",
         OF demo_accept demo_content demo_body demo_notification_partition ne h1]
  have a: "post_mcp demo_env [] (demo_request (Some ''s1'') (JArr [initialized_notification])) demo_server
       = (Plain 202 None, notification_loop demo_env ''s1'' [initialized_notification] demo_server)"
    using demo_store(1) by blast
  from notifications_only[where env = demo_env and st = demo_server and sch = "[]",
         OF demo_accept demo_content demo_body demo_notification_partition ne h2]
  have b: "post_mcp demo_env [] (demo_request (Some ''ghost'') (JArr [initialized_notification])) demo_server
       = (Plain 404 (Some ''Session not found''), demo_server)"
    using demo_store(2) by blast
  show ?thesis
    using demo_accept demo_content demo_body demo_notification_partition h1 h2 demo_store
      a[unfolded demo_notified] b
    by (intro conjI)
qed

section \<open>Order of the checks of the POST handler\<close>

lemma bind_session_live:
  assumes "k \<noteq> []" and "map_of (sessions st) k = Some s"
  shows "bind_session st (Some k) requests = Inr (Some k)"
  using assms by (simp add: bind_session_def requireSessionHeader_def loadSession_def)

text \<open>
  Claim C10. For a batch with notifications and Requests, sent with the identifier
  \<open>k\<close> of a live session, the handler first runs all notifications and only then
  checks the composition of the batch and binds the session: the answer and the final
  state are those of the Requests handled from the state the notifications leave.
  When a handshake Request comes with another Request the answer is 400 and the final
  state is exactly the state after the notifications, so their mutations persist: if
  one of them is \<open>initialized\<close>, the session of \<open>k\<close> is initialized and its last
  activity is a clock reading of this call.
\<close>

theorem notifications_before_checks:
  assumes "enforceAcceptHeader req = Inr ()" and "enforceJsonContent req = Inr ()"
    and "normalizeMessages env (body req) = Inr messages"
    and "partitionMessages messages = Inr (requests, notifications, responses)"
    and "notifications \<noteq> []" and "requests \<noteq> []"
    and "headerSessionId req = Some k" and "map_of (sessions st) k = Some s"
  shows "post_mcp env sch req st =
           (if list_ex (\<lambda>r. get r ''method'' = Some (JStr ''initialize'')) requests
               \<and> 1 < length requests
            then (Plain 400 (Some ''Initialize request must be sent separately.''),
                  notification_loop env k notifications st)
            else (Stream
                    (session_header (completion_order sch
                       (fst (run_tasks env (Some k) requests (notification_loop env k notifications st)))))
                    (map (sendSseMessage \<circ> fst) (completion_order sch
                       (fst (run_tasks env (Some k) requests (notification_loop env k notifications st))))),
                  snd (run_tasks env (Some k) requests (notification_loop env k notifications st))))
       \<and> ((\<exists>n \<in> set notifications. get n ''method'' = Some (JStr ''initialized'')) \<longrightarrow>
             (\<exists>s'. map_of (sessions (notification_loop env k notifications st)) k = Some s'
                   \<and> initialized s'
                   \<and> refreshed env st (notification_loop env k notifications st) s'))"
proof -
  let ?st1 = "notification_loop env k notifications st"
  have k: "k \<noteq> []" using assms(7) by (rule headerSessionId_Some)
  have ne: "messages \<noteq> []" using partition_nonempty[OF assms(4)] assms(5) by simp
  from notification_loop_session[OF assms(8), of env notifications]
  obtain s1 where s1: "map_of (sessions ?st1) k = Some s1"
    and init: "(\<exists>n \<in> set notifications. get n ''method'' = Some (JStr ''initialized'')) \<longrightarrow>
                 initialized s1 \<and> refreshed env st ?st1 s1"
    by blast
  have pm: "post_messages env sch (headerSessionId req) messages st =
     (if list_ex (\<lambda>r. get r ''method'' = Some (JStr ''initialize'')) requests \<and> length requests > 1
      then (Inl (HttpError 400 ''Initialize request must be sent separately.''), ?st1)
      else (Inr (Stream
                   (session_header (completion_order sch (fst (run_tasks env (Some k) requests ?st1))))
                   (map (sendSseMessage \<circ> fst)
                      (completion_order sch (fst (run_tasks env (Some k) requests ?st1))))),
                 snd (run_tasks env (Some k) requests ?st1)))"
    unfolding assms(7)
    by (simp add: post_messages_after_notifications[OF assms(4) processNotifications_live[OF k assms(8)]]
          assms(6) bind_session_live[OF k s1])
  have "post_mcp env sch req st =
           (if list_ex (\<lambda>r. get r ''method'' = Some (JStr ''initialize'')) requests
               \<and> 1 < length requests
            then (Plain 400 (Some ''Initialize request must be sent separately.''), ?st1)
            else (Stream
                    (session_header (completion_order sch (fst (run_tasks env (Some k) requests ?st1))))
                    (map (sendSseMessage \<circ> fst)
                       (completion_order sch (fst (run_tasks env (Some k) requests ?st1)))),
                  snd (run_tasks env (Some k) requests ?st1)))"
    by (simp add: post_mcp_messages[OF assms(1-3) ne] pm handleHttpError_def)
  with s1 init show ?thesis by blast
qed

lemma demo_handshake_partition: "partitionMessages handshake_batch = Inr (handshake_batch, [], [])"
  by (simp add: partition_by_kind handshake_batch_def demo_not_null demo_not_null[symmetric]
        demo_kinds demo_kinds_not)

lemma demo_mixed_partition:
  "partitionMessages mixed_batch = Inr (handshake_batch, [initialized_notification], [])"
  by (simp add: partition_by_kind mixed_batch_def handshake_batch_def demo_not_null
        demo_not_null[symmetric] demo_kinds demo_kinds_not)

lemma demo_handshake_facts:
  "list_ex (\<lambda>r. get r ''method'' = Some (JStr ''initialize'')) handshake_batch"
  "list_ex (\<lambda>r. get r ''method'' \<noteq> Some (JStr ''initialize'')) handshake_batch"
  "1 < length handshake_batch" "handshake_batch \<noteq> []" "mixed_batch \<noteq> []"
  by (simp_all add: handshake_batch_def mixed_batch_def demo_methods)

theorem notifications_before_checks_witness:
  "enforceAcceptHeader (demo_request (Some ''s1'') (JArr mixed_batch)) = Inr ()
   \<and> enforceJsonContent (demo_request (Some ''s1'') (JArr mixed_batch)) = Inr ()
   \<and> normalizeMessages demo_env (body (demo_request (Some ''s1'') (JArr mixed_batch))) = Inr mixed_batch
   \<and> partitionMessages mixed_batch = Inr (handshake_batch, [initialized_notification], [])
   \<and> headerSessionId (demo_request (Some ''s1'') (JArr mixed_batch)) = Some ''s1''
   \<and> map_of (sessions demo_server) ''s1'' = Some demo_session
   \<and> post_mcp demo_env [] (demo_request (Some ''s1'') (JArr mixed_batch)) demo_server
       = (Plain 400 (Some ''Initialize request must be sent separately.''),
          \<lparr>sessions = [(''s1'', \<lparr>id_field = ''s1'', createdAt = 0, lastActivity = 1800000,
                                    initialized = True\<rparr>)],
           clock_reads = Suc 0, uuids_made = 0, tool_calls = 0\<rparr>)"
proof -
  have ne: "[initialized_notification] \<noteq> []" by simp
  have h: "headerSessionId (demo_request (Some ''s1'') (JArr mixed_batch)) = Some ''s1''"
    by (simp add: demo_header)
  from notifications_before_checks[where env = demo_env and st = demo_server and sch = "[]",
         OF demo_accept demo_content demo_body demo_mixed_partition ne demo_handshake_facts(4) h
            demo_store(1)]
  have "post_mcp demo_env [] (demo_request (Some ''s1'') (JArr mixed_batch)) demo_server
       = (Plain 400 (Some ''Initialize request must be sent separately.''),
          notification_loop demo_env ''s1'' [initialized_notification] demo_server)"
    using demo_handshake_facts(1,3) by simp
  then show ?thesis
    using demo_accept demo_content demo_body demo_mixed_partition h demo_store(1)
    unfolding demo_notified
    by (intro conjI)
qed

text \<open>
  Claim C3, as amended. For a batch whose Requests include a handshake Request and at
  least one other Request, the call is rejected with a plain error response and no
  Request is executed: no tool is called, no identifier is generated, no session is
  created or removed, and the state changes only through the notifications of the
  batch, if their session is live. The status is 400, except that a batch which also
  holds notifications and whose session identifier does not resolve to a live session
  is rejected with 404 (the notifications are processed before the composition check).
\<close>

theorem handshake_not_alone:
  assumes "enforceAcceptHeader req = Inr ()" and "enforceJsonContent req = Inr ()"
    and "normalizeMessages env (body req) = Inr messages"
    and "partitionMessages messages = Inr (requests, notifications, responses)"
    and "list_ex (\<lambda>r. get r ''method'' = Some (JStr ''initialize'')) requests"
    and "1 < length requests"
  shows "post_mcp env sch req st =
           ((if notifications = [] then Plain 400 (Some ''Initialize request must be sent separately.'')
             else case headerSessionId req of
                    None \<Rightarrow> Plain 400 (Some ''Missing Mcp-Session-Id header'')
                  | Some k \<Rightarrow>
                      if map_of (sessions st) k = None then Plain 404 (Some ''Session not found'')
                      else Plain 400 (Some ''Initialize request must be sent separately.'')),
            (case headerSessionId req of
               None \<Rightarrow> st
             | Some k \<Rightarrow>
                 if map_of (sessions st) k = None then st
                 else notification_loop env k notifications st))
       \<and> uuids_made (snd (post_mcp env sch req st)) = uuids_made st
       \<and> tool_calls (snd (post_mcp env sch req st)) = tool_calls st
       \<and> map fst (sessions (snd (post_mcp env sch req st))) = map fst (sessions st)"
proof -
  let ?init = "Plain 400 (Some ''Initialize request must be sent separately.'')"
  let ?st' = "case headerSessionId req of
               None \<Rightarrow> st
             | Some k \<Rightarrow>
                 if map_of (sessions st) k = None then st
                 else notification_loop env k notifications st"
  have rne: "requests \<noteq> []" using assms(6) by auto
  have ne: "messages \<noteq> []" using partition_nonempty[OF assms(4)] rne by simp
  note run = post_mcp_result[OF assms(1-3) ne] post_mcp_error[OF assms(1-3) ne]
  have after: "post_messages env sch hdr messages st
                 = (Inl (HttpError 400 ''Initialize request must be sent separately.''), st1)"
    if "processNotifications env hdr notifications st = (Inr (), st1)" for hdr st1
    using assms(5,6) by (simp add: post_messages_after_notifications[OF assms(4) that] rne)
  have main: "post_mcp env sch req st =
           ((if notifications = [] then ?init
             else case headerSessionId req of
                    None \<Rightarrow> Plain 400 (Some ''Missing Mcp-Session-Id header'')
                  | Some k \<Rightarrow>
                      if map_of (sessions st) k = None then Plain 404 (Some ''Session not found'')
                      else ?init), ?st')"
  proof (cases "notifications = []")
    case True
    have "post_mcp env sch req st = (?init, st)"
      using run(2)[OF after[OF processNotifications_none[of env "headerSessionId req" st, folded True]]]
      by (simp add: handleHttpError_def)
    moreover have "?st' = st" using True by (simp split: option.splits)
    ultimately show ?thesis using True by simp
  next
    case False
    show ?thesis
    proof (cases "headerSessionId req")
      case None
      have "post_messages env sch (headerSessionId req) messages st
              = (Inl (HttpError 400 ''Missing Mcp-Session-Id header''), st)"
        unfolding None
        by (rule post_messages_notification_error[OF assms(4) processNotifications_missing[OF False]])
      from run(2)[OF this] show ?thesis using False None by (simp add: handleHttpError_def)
    next
      case (Some k)
      then have k: "k \<noteq> []" by (rule headerSessionId_Some)
      show ?thesis
      proof (cases "map_of (sessions st) k")
        case None
        have "post_messages env sch (headerSessionId req) messages st
                = (Inl (HttpError 404 ''Session not found''), st)"
          unfolding Some
          by (rule post_messages_notification_error[OF assms(4)
                     processNotifications_unknown[OF False k None]])
        from run(2)[OF this] show ?thesis using False Some None by (simp add: handleHttpError_def)
      next
        case (Some s)
        have "post_messages env sch (headerSessionId req) messages st
                = (Inl (HttpError 400 ''Initialize request must be sent separately.''),
                   notification_loop env k notifications st)"
          unfolding \<open>headerSessionId req = Some k\<close>
          by (rule after[OF processNotifications_live[OF k Some]])
        from run(2)[OF this] show ?thesis
          using False \<open>headerSessionId req = Some k\<close> Some by (simp add: handleHttpError_def)
      qed
    qed
  qed
  have frame: "uuids_made ?st' = uuids_made st \<and> tool_calls ?st' = tool_calls st
                 \<and> map fst (sessions ?st') = map fst (sessions st)"
    using notification_loop_frame by (simp split: option.splits)
  show ?thesis
    using frame unfolding main snd_conv by (intro conjI refl) simp_all
qed

lemma list_ex_both:
  "list_ex P xs \<Longrightarrow> list_ex (\<lambda>x. \<not> P x) xs \<Longrightarrow> 1 < length xs"
proof (cases xs)
  case Nil
  then show "list_ex P xs \<Longrightarrow> ?thesis" by simp
next
  case (Cons x ys)
  then show "list_ex P xs \<Longrightarrow> list_ex (\<lambda>x. \<not> P x) xs \<Longrightarrow> ?thesis"
    by (cases ys) auto
qed

text \<open>
  Claim C2, as amended. For a batch with at least one Request that is not the
  handshake, sent without a (non-empty) session identifier or with one that is not
  the key of a live session, the call fails with a plain error response before any
  Request is dispatched and the whole state, the session store included, stays as it
  was. The status is 400 when the identifier is missing and 404 when it does not
  resolve, except that a batch without notifications that also holds a handshake
  Request is rejected with 400 by the composition check, which comes first.
\<close>

theorem requests_need_live_session:
  assumes "enforceAcceptHeader req = Inr ()" and "enforceJsonContent req = Inr ()"
    and "normalizeMessages env (body req) = Inr messages"
    and "partitionMessages messages = Inr (requests, notifications, responses)"
    and "list_ex (\<lambda>r. get r ''method'' \<noteq> Some (JStr ''initialize'')) requests"
    and "case headerSessionId req of None \<Rightarrow> True | Some k \<Rightarrow> map_of (sessions st) k = None"
  shows "post_mcp env sch req st =
           ((if notifications = []
                \<and> list_ex (\<lambda>r. get r ''method'' = Some (JStr ''initialize'')) requests
             then Plain 400 (Some ''Initialize request must be sent separately.'')
             else if headerSessionId req = None
             then Plain 400 (Some ''Missing Mcp-Session-Id header'')
             else Plain 404 (Some ''Session not found'')),
            st)"
proof -
  let ?hasInit = "list_ex (\<lambda>r. get r ''method'' = Some (JStr ''initialize'')) requests"
  have rne: "requests \<noteq> []" using assms(5) by auto
  have ne: "messages \<noteq> []" using partition_nonempty[OF assms(4)] rne by simp
  note run = post_mcp_result[OF assms(1-3) ne] post_mcp_error[OF assms(1-3) ne]
  have bind: "bind_session st (headerSessionId req) requests =
                (if headerSessionId req = None
                 then Inl (HttpError 400 ''Missing Mcp-Session-Id header'')
                 else Inl (HttpError 404 ''Session not found''))"
  proof (cases "headerSessionId req")
    case None
    then show ?thesis
      by (simp add: bind_session_required[OF assms(5)] requireSessionHeader_def)
  next
    case (Some k)
    then have "k \<noteq> []" by (rule headerSessionId_Some)
    moreover have "map_of (sessions st) k = None" using assms(6) Some by simp
    ultimately show ?thesis using Some
      by (simp add: bind_session_required[OF assms(5)] requireSessionHeader_def loadSession_def)
  qed
  show ?thesis
  proof (cases "notifications = []")
    case True
    note pm = post_messages_after_notifications[OF assms(4)
                processNotifications_none[of env "headerSessionId req" st, folded True], of sch]
    show ?thesis
    proof (cases ?hasInit)
      case True
      with list_ex_both[OF True] assms(5) have "1 < length requests" by simp
      with True have "post_messages env sch (headerSessionId req) messages st
          = (Inl (HttpError 400 ''Initialize request must be sent separately.''), st)"
        using rne by (simp add: pm)
      from run(2)[OF this] show ?thesis
        using True \<open>notifications = []\<close> by (simp add: handleHttpError_def)
    next
      case False
      then have "post_messages env sch (headerSessionId req) messages st
          = (if headerSessionId req = None
             then Inl (HttpError 400 ''Missing Mcp-Session-Id header'')
             else Inl (HttpError 404 ''Session not found''), st)"
        using rne by (simp add: pm bind)
      then show ?thesis
        using False run(2)[of sch st "HttpError 400 ''Missing Mcp-Session-Id header''" st]
          run(2)[of sch st "HttpError 404 ''Session not found''" st]
        by (simp add: handleHttpError_def split: if_splits)
    qed
  next
    case False
    show ?thesis
    proof (cases "headerSessionId req")
      case None
      have "post_messages env sch (headerSessionId req) messages st
              = (Inl (HttpError 400 ''Missing Mcp-Session-Id header''), st)"
        unfolding None
        by (rule post_messages_notification_error[OF assms(4) processNotifications_missing[OF False]])
      from run(2)[OF this] show ?thesis using False None by (simp add: handleHttpError_def)
    next
      case (Some k)
      then have k: "k \<noteq> []" by (rule headerSessionId_Some)
      have un: "map_of (sessions st) k = None" using assms(6) Some by simp
      have "post_messages env sch (headerSessionId req) messages st
              = (Inl (HttpError 404 ''Session not found''), st)"
        unfolding Some
        by (rule post_messages_notification_error[OF assms(4)
                   processNotifications_unknown[OF False k un]])
      from run(2)[OF this] show ?thesis using False Some by (simp add: handleHttpError_def)
    qed
  qed
qed

lemma demo_batch_needs_session:
  "list_ex (\<lambda>r. get r ''method'' \<noteq> Some (JStr ''initialize'')) demo_batch"
  by (simp add: demo_batch_def demo_methods)

theorem requests_need_live_session_witness:
  "enforceAcceptHeader (demo_request None (JArr demo_batch)) = Inr ()
   \<and> enforceJsonContent (demo_request None (JArr demo_batch)) = Inr ()
   \<and> normalizeMessages demo_env (body (demo_request None (JArr demo_batch))) = Inr demo_batch
   \<and> partitionMessages demo_batch = Inr (demo_batch, [], [])
   \<and> list_ex (\<lambda>r. get r ''method'' \<noteq> Some (JStr ''initialize'')) demo_batch
   \<and> headerSessionId (demo_request None (JArr demo_batch)) = None
   \<and> post_mcp demo_env [] (demo_request None (JArr demo_batch)) demo_server
       = (Plain 400 (Some ''Missing Mcp-Session-Id header''), demo_server)
   \<and> headerSessionId (demo_request (Some ''ghost'') (JArr demo_batch)) = Some ''ghost''
   \<and> map_of (sessions demo_server) ''ghost'' = None
   \<and> post_mcp demo_env [] (demo_request (Some ''ghost'') (JArr demo_batch)) demo_server
       = (Plain 404 (Some ''Session not found''), demo_server)"
proof -
  have h1: "headerSessionId (demo_request None (JArr demo_batch)) = None"
    and h2: "headerSessionId (demo_request (Some ''ghost'') (JArr demo_batch)) = Some ''ghost''"
    by (simp_all add: demo_header)
  have c1: "case headerSessionId (demo_request None (JArr demo_batch)) of
              None \<Rightarrow> True | Some k \<Rightarrow> map_of (sessions demo_server) k = None"
    by (simp add: h1)
  have c2: "case headerSessionId (demo_request (Some ''ghost'') (JArr demo_batch)) of
              None \<Rightarrow> True | Some k \<Rightarrow> map_of (sessions demo_server) k = None"
    by (simp add: h2 demo_store)
  from requests_need_live_session[where env = demo_env and st = demo_server and sch = "[]",
         OF demo_accept demo_content demo_body demo_partition demo_batch_needs_session c1]
  have a: "post_mcp demo_env [] (demo_request None (JArr demo_batch)) demo_server
       = (Plain 400 (Some ''Missing Mcp-Session-Id header''), demo_server)"
    by (simp add: h1 demo_no_initialize)
  from requests_need_live_session[where env = demo_env and st = demo_server and sch = "[]",
         OF demo_accept demo_content demo_body demo_partition demo_batch_needs_session c2]
  have b: "post_mcp demo_env [] (demo_request (Some ''ghost'') (JArr demo_batch)) demo_server
       = (Plain 404 (Some ''Session not found''), demo_server)"
    by (simp add: h2 demo_no_initialize)
  show ?thesis
    using demo_accept demo_content demo_body demo_partition demo_batch_needs_session h1 h2
      demo_store(2) a b
    by (intro conjI)
qed

text \<open>
  The claim C2 as stated fails: a handshake Request and a ping, sent with an
  identifier that resolves to no session, are rejected with 400, not with 404.
\<close>

theorem requests_need_live_session_counterexample:
  "partitionMessages handshake_batch = Inr (handshake_batch, [], [])
   \<and> list_ex (\<lambda>r. get r ''method'' \<noteq> Some (JStr ''initialize'')) handshake_batch
   \<and> headerSessionId (demo_request (Some ''ghost'') (JArr handshake_batch)) = Some ''ghost''
   \<and> map_of (sessions demo_server) ''ghost'' = None
   \<and> post_mcp demo_env [] (demo_request (Some ''ghost'') (JArr handshake_batch)) demo_server
       = (Plain 400 (Some ''Initialize request must be sent separately.''), demo_server)"
proof -
  have h: "headerSessionId (demo_request (Some ''ghost'') (JArr handshake_batch)) = Some ''ghost''"
    by (simp add: demo_header)
  have "post_messages demo_env [] (Some ''ghost'') handshake_batch demo_server
          = (Inl (HttpError 400 ''Initialize request must be sent separately.''), demo_server)"
    using demo_handshake_facts(1,3,4)
    by (simp add: post_messages_after_notifications[OF demo_handshake_partition processNotifications_none])
  then have "post_mcp demo_env [] (demo_request (Some ''ghost'') (JArr handshake_batch)) demo_server
       = (handleHttpError (HttpError 400 ''Initialize request must be sent separately.''), demo_server)"
    by (intro post_mcp_error[OF demo_accept demo_content demo_body demo_handshake_facts(4)])
       (simp add: h)
  then show ?thesis
    using demo_handshake_partition demo_handshake_facts(2) h demo_store(2)
    by (simp add: handleHttpError_def)
qed

theorem handshake_not_alone_witness:
  "enforceAcceptHeader (demo_request None (JArr handshake_batch)) = Inr ()
   \<and> enforceJsonContent (demo_request None (JArr handshake_batch)) = Inr ()
   \<and> normalizeMessages demo_env (body (demo_request None (JArr handshake_batch))) = Inr handshake_batch
   \<and> partitionMessages handshake_batch = Inr (handshake_batch, [], [])
   \<and> list_ex (\<lambda>r. get r ''method'' = Some (JStr ''initialize'')) handshake_batch
   \<and> 1 < length handshake_batch
   \<and> post_mcp demo_env [] (demo_request None (JArr handshake_batch)) demo_server
       = (Plain 400 (Some ''Initialize request must be sent separately.''), demo_server)"
proof -
  have h: "headerSessionId (demo_request None (JArr handshake_batch)) = None"
    by (simp add: demo_header)
  from handshake_not_alone[where env = demo_env and st = demo_server and sch = "[]",
         OF demo_accept demo_content demo_body demo_handshake_partition demo_handshake_facts(1,3)]
  have "post_mcp demo_env [] (demo_request None (JArr handshake_batch)) demo_server
       = (Plain 400 (Some ''Initialize request must be sent separately.''), demo_server)"
    by (simp add: h)
  then show ?thesis
    using demo_accept demo_content demo_body demo_handshake_partition demo_handshake_facts(1,3)
    by (intro conjI)
qed

text \<open>
  The claim C3 as stated fails: with an \<open>initialized\<close> notification in the batch and an
  identifier that resolves to no session, the rejection is a 404, not a 400.
\<close>

theorem handshake_not_alone_counterexample:
  "partitionMessages mixed_batch = Inr (handshake_batch, [initialized_notification], [])
   \<and> list_ex (\<lambda>r. get r ''method'' = Some (JStr ''initialize'')) handshake_batch
   \<and> 1 < length handshake_batch
   \<and> post_mcp demo_env [] (demo_request (Some ''ghost'') (JArr mixed_batch)) demo_server
       = (Plain 404 (Some ''Session not found''), demo_server)"
proof -
  have h: "headerSessionId (demo_request (Some ''ghost'') (JArr mixed_batch)) = Some ''ghost''"
    by (simp add: demo_header)
  have "post_messages demo_env [] (Some ''ghost'') mixed_batch demo_server
          = (Inl (HttpError 404 ''Session not found''), demo_server)"
    by (rule post_messages_notification_error[OF demo_mixed_partition
               processNotifications_unknown[OF _ _ demo_store(2)]]) simp_all
  then have "post_mcp demo_env [] (demo_request (Some ''ghost'') (JArr mixed_batch)) demo_server
       = (handleHttpError (HttpError 404 ''Session not found''), demo_server)"
    by (intro post_mcp_error[OF demo_accept demo_content demo_body demo_handshake_facts(5)])
       (simp add: h)
  then show ?thesis
    using demo_mixed_partition demo_handshake_facts(1,3)
    by (simp add: handleHttpError_def)
qed

section \<open>Elements of a batch that are not objects\<close>

lemma partition_loop_null:
  "JNull \<in> set ms \<Longrightarrow>
   partition_loop ms (a, b, c) = Inl (TypeError ''Cannot read properties of null (reading method)'')"
proof (induction ms arbitrary: a b c)
  case Nil
  then show ?case by simp
next
  case (Cons m ms)
  show ?case
  proof (cases "m = JNull")
    case True
    then show ?thesis by simp
  next
    case False
    with Cons.prems have "JNull \<in> set ms" by auto
    from Cons.IH[OF this] show ?thesis
      by (simp only: partition_loop_step[OF False])
  qed
qed

lemma post_messages_partition_error:
  "partitionMessages messages = Inl e \<Longrightarrow> post_messages env sch hdr messages st = (Inl e, st)"
  by (simp add: post_messages_def)

lemma not_object_is_Response: "(\<forall>kvs. x \<noteq> JObj kvs) \<Longrightarrow> is_Response x"
  by (cases x) (simp_all add: is_Response_def)

text \<open>
  Claim C9, as amended. For an array body with a \<open>null\<close> element the call fails with
  500 "Internal server error" and the state is unchanged: reading \<open>method\<close> of \<open>null\<close>
  throws a TypeError, which the outer handler maps to 500. Elements of the other kinds
  that are not objects (numbers, strings, booleans, arrays) make no test throw: in a
  batch without \<open>null\<close> the partition succeeds and each of them is among the
  Responses.
\<close>

theorem null_element_is_500:
  assumes "enforceAcceptHeader req = Inr ()" and "enforceJsonContent req = Inr ()"
    and "body req = JArr xs"
  shows "(JNull \<in> set xs \<longrightarrow>
            post_mcp env sch req st = (Plain 500 (Some ''Internal server error''), st))
       \<and> (JNull \<notin> set xs \<longrightarrow>
            (\<exists>requests notifications responses.
               partitionMessages xs = Inr (requests, notifications, responses)
               \<and> (\<forall>x \<in> set xs. (\<forall>kvs. x \<noteq> JObj kvs) \<longrightarrow> x \<in> set responses)))"
proof (intro conjI impI)
  assume null: "JNull \<in> set xs"
  then have ne: "xs \<noteq> []" by auto
  have n: "normalizeMessages env (body req) = Inr xs"
    by (simp add: normalizeMessages_def assms(3))
  have "partitionMessages xs = Inl (TypeError ''Cannot read properties of null (reading method)'')"
    unfolding partitionMessages_def by (rule partition_loop_null[OF null])
  from post_mcp_error[OF assms(1,2) n ne post_messages_partition_error[OF this]]
  show "post_mcp env sch req st = (Plain 500 (Some ''Internal server error''), st)"
    by (simp add: handleHttpError_def)
next
  assume "JNull \<notin> set xs"
  from partition_by_kind[OF this] not_object_is_Response
  show "\<exists>requests notifications responses.
               partitionMessages xs = Inr (requests, notifications, responses)
               \<and> (\<forall>x \<in> set xs. (\<forall>kvs. x \<noteq> JObj kvs) \<longrightarrow> x \<in> set responses)"
    by (intro exI[of _ "filter is_Request xs"] exI[of _ "filter is_Notification xs"]
          exI[of _ "filter is_Response xs"]) simp
qed

theorem null_element_is_500_witness:
  "enforceAcceptHeader (demo_request None (JArr [ping_request 1, JNull])) = Inr ()
   \<and> enforceJsonContent (demo_request None (JArr [ping_request 1, JNull])) = Inr ()
   \<and> body (demo_request None (JArr [ping_request 1, JNull])) = JArr [ping_request 1, JNull]
   \<and> JNull \<in> set [ping_request 1, JNull]
   \<and> post_mcp demo_env [] (demo_request None (JArr [ping_request 1, JNull])) demo_server
       = (Plain 500 (Some ''Internal server error''), demo_server)
   \<and> body (demo_request None (JArr [JBool True, client_response])) = JArr [JBool True, client_response]
   \<and> JNull \<notin> set [JBool True, client_response]
   \<and> partitionMessages [JBool True, client_response] = Inr ([], [], [JBool True, client_response])"
proof -
  have b: "body (demo_request None (JArr ys)) = JArr ys" for ys
    by (simp add: demo_request_def)
  have n: "JNull \<in> set [ping_request 1, JNull]" by simp
  have m: "JNull \<notin> set [JBool True, client_response]" by (simp add: client_response_def)
  from null_element_is_500[where env = demo_env and st = demo_server and sch = "[]",
         OF demo_accept demo_content b] n
  have 1: "post_mcp demo_env [] (demo_request None (JArr [ping_request 1, JNull])) demo_server
       = (Plain 500 (Some ''Internal server error''), demo_server)"
    by blast
  have 2: "partitionMessages [JBool True, client_response] = Inr ([], [], [JBool True, client_response])"
    by (simp add: partitionMessages_def client_response_def)
  show ?thesis
    using demo_accept demo_content b n m 1 2 by (intro conjI)
qed

text \<open>
  The claim C9 as stated fails: the array of a number and a string is accepted with
  an empty 202.
\<close>

theorem null_element_is_500_counterexample:
  "enforceAcceptHeader (demo_request None (JArr [JNum 5, JStr ''text''])) = Inr ()
   \<and> enforceJsonContent (demo_request None (JArr [JNum 5, JStr ''text''])) = Inr ()
   \<and> post_mcp demo_env [] (demo_request None (JArr [JNum 5, JStr ''text''])) demo_server
       = (Plain 202 None, demo_server)"
proof -
  have p: "partitionMessages [JNum 5, JStr ''text''] = Inr ([], [], [JNum 5, JStr ''text''])"
    by (simp add: partitionMessages_def)
  have "post_messages demo_env [] (headerSessionId (demo_request None (JArr [JNum 5, JStr ''text''])))
          [JNum 5, JStr ''text''] demo_server = (Inr (Plain 202 None), demo_server)"
    by (simp add: post_messages_after_notifications[OF p processNotifications_none])
  from post_mcp_result[OF demo_accept demo_content demo_body _ this]
  have "post_mcp demo_env [] (demo_request None (JArr [JNum 5, JStr ''text''])) demo_server
       = (Plain 202 None, demo_server)" by simp
  then show ?thesis using demo_accept demo_content by (intro conjI)
qed

section \<open>Schedules and the store invariant\<close>

text \<open>
  Every order in which the tasks of a batch can complete is the order of some
  schedule, so a statement for all schedules is a statement for all orders.
\<close>

lemma completion_order_complete:
  "mset ys = mset xs \<Longrightarrow> \<exists>sch. completion_order sch xs = ys"
proof (induction ys arbitrary: xs)
  case Nil
  then have "xs = []" by simp
  then show ?case by simp
next
  case (Cons y ys)
  then have "y \<in> set xs" by (metis list.set_intros(1) mset_eq_setD)
  then obtain i where i: "i < length xs" "xs ! i = y" by (auto simp: in_set_conv_nth)
  then obtain x xs' where xs: "xs = x # xs'" by (cases xs) auto
  let ?rest = "take i xs @ drop (Suc i) xs"
  have "mset xs = add_mset y (mset ?rest)"
    using id_take_nth_drop[OF i(1)] i(2) by (metis mset.simps(2) mset_append union_mset_add_mset_right)
  with Cons.prems have "mset ys = mset ?rest" by simp
  from Cons.IH[OF this] obtain sch where sch: "completion_order sch ?rest = ys" by blast
  have "i mod length xs = i" using i(1) by simp
  then have "completion_order (i # sch) xs = y # ys"
    using sch i(2) unfolding xs by (simp add: Let_def)
  then show ?case by blast
qed

text \<open>
  The keys of the session map stay distinct under every operation of the server: the
  sweep, the notifications, the dispatcher and the POST handler.
\<close>

lemma distinct_mutate: "distinct (map fst m) \<Longrightarrow> distinct (map fst (mutate k f m))"
  by (simp add: keys_mutate)

lemma distinct_sweep_loop:
  "distinct (map fst m) \<Longrightarrow> distinct (map fst (sweep_loop now es m))"
proof (induction es arbitrary: m)
  case Nil
  then show ?case by simp
next
  case (Cons e es)
  obtain k s where e: "e = (k, s)" by (cases e)
  show ?case unfolding e using Cons by (simp add: AList.distinct_delete)
qed

lemma store_ok_touch: "store_ok st \<Longrightarrow> store_ok (touchSession env k st)"
  by (simp add: store_ok_def touchSession_sessions keys_mutate)

lemma store_ok_create: "store_ok st \<Longrightarrow> store_ok (snd (createSession env st))"
  by (simp add: store_ok_def createSession_eq AList.distinct_update)

lemma store_ok_sweep: "store_ok st \<Longrightarrow> store_ok (sweep env st)"
  by (simp add: store_ok_def sweep_def Date_now_def distinct_sweep_loop)

lemma store_ok_notifications: "store_ok st \<Longrightarrow> store_ok (notification_loop env k ns st)"
  using notification_loop_frame[of env k ns st] by (simp add: store_ok_def)

lemma store_ok_counters:
  "store_ok (st\<lparr>tool_calls := n\<rparr>) = store_ok st"
  by (simp add: store_ok_def)

lemma store_ok_handle:
  "store_ok st \<Longrightarrow> store_ok (snd (handleRpcRequest env r session st))"
  by (auto simp: handleRpcRequest_def ensureSession_def callTool_def Let_def split_beta
        store_ok_touch store_ok_create store_ok_counters
      split: option.splits json.splits sum.splits)

lemma store_ok_tasks: "store_ok st \<Longrightarrow> store_ok (snd (run_tasks env session rs st))"
proof (induction rs arbitrary: st)
  case Nil
  then show ?case by simp
next
  case (Cons r rs)
  have "store_ok (snd (task env session r st))"
    using store_ok_handle[OF Cons.prems] by (simp add: task_cases)
  from Cons.IH[OF this] show ?case by (simp only: run_tasks_Cons snd_conv)
qed


lemma store_ok_processNotifications:
  "store_ok st \<Longrightarrow> store_ok (snd (processNotifications env hdr ns st))"
  by (simp add: processNotifications_def store_ok_notifications split: sum.splits)

lemma store_ok_post_messages:
  assumes "store_ok st"
  shows "store_ok (snd (post_messages env sch hdr messages st))"
proof (cases "partitionMessages messages")
  case (Inl e)
  then show ?thesis using assms by (simp add: post_messages_def)
next
  case (Inr p)
  obtain requests notifications responses where p: "p = (requests, notifications, responses)"
    by (cases p)
  obtain r st1 where pn: "processNotifications env hdr notifications st = (r, st1)"
    by (cases "processNotifications env hdr notifications st")
  have st1: "store_ok st1"
    using store_ok_processNotifications[OF assms, of env hdr notifications] pn by simp
  show ?thesis
  proof (cases r)
    case (Inl e)
    with pn show ?thesis
      using st1 by (simp add: post_messages_notification_error[OF Inr[unfolded p]])
  next
    case (Inr u)
    with pn have "processNotifications env hdr notifications st = (Inr (), st1)" by simp
    from post_messages_after_notifications[OF \<open>partitionMessages messages = Inr p\<close>[unfolded p] this]
    show ?thesis
      using st1 store_ok_tasks[OF st1] by (simp split: sum.splits)
  qed
qed

lemma store_ok_post_mcp:
  assumes "store_ok st"
  shows "store_ok (snd (post_mcp env sch req st))"
proof -
  have "snd (post_mcp env sch req st) = snd (post_try env sch req st)"
    by (simp add: post_mcp_def split: prod.splits sum.splits)
  moreover have "store_ok (snd (post_try env sch req st))"
    using assms store_ok_post_messages[OF assms]
    by (simp add: post_try_def split: sum.splits)
  ultimately show ?thesis by simp
qed

end
